theory Spec2Isabelle
  imports Complex_Main "HOL-Library.Word"
begin

section \<open>Token codec\<close>

text \<open>
  The token codec lives in the server module: \<^verbatim>\<open>validateToken\<close> and the minting code of
  the route \<^verbatim>\<open>POST /api/tokens\<close>. A JavaScript string is a \<open>string\<close>; the result of
  \<^verbatim>\<open>crypto.randomBytes(32)\<close> and the HMAC digest are byte lists that the environment
  supplies, so they are inputs of the model.
\<close>

text \<open>\<^verbatim>\<open>s.split(c)\<close> for a one-character separator: never the empty list.\<close>

fun split_on :: "char \<Rightarrow> string \<Rightarrow> string list" where
  "split_on c [] = [[]]"
| "split_on c (x # xs) =
     (let ps = split_on c xs
      in if x = c then [] # ps else (x # hd ps) # tl ps)"

text \<open>
  \<^verbatim>\<open>
  function validateToken(token) {
    if (!token || typeof token !== 'string') return false;
    const parts = token.split('.');
    if (parts.length !== 2) return false;
    const [tokenString, signature] = parts;
    if (tokenString.length !== 64 || signature.length !== 16) return false;
    return true;
  }
  \<close>
  The argument is a route parameter, hence a string; the falsy string is the empty one.
\<close>

definition validateToken :: "string \<Rightarrow> bool" where
  "validateToken token =
     (if token = [] then False
      else
        (let parts = split_on CHR ''.'' token
         in if length parts \<noteq> 2 then False
            else
              (let tokenString = parts ! 0; signature = parts ! 1
               in if length tokenString \<noteq> 64 \<or> length signature \<noteq> 16 then False
                  else True)))"

text \<open>\<^verbatim>\<open>Buffer.toString('hex')\<close>: two lower-case hexadecimal digits per byte.\<close>

definition hex_digit :: "nat \<Rightarrow> char" where
  "hex_digit n = ''0123456789abcdef'' ! (n mod 16)"

definition hex_byte :: "8 word \<Rightarrow> string" where
  "hex_byte b = [hex_digit (unat b div 16), hex_digit (unat b mod 16)]"

definition toString_hex :: "8 word list \<Rightarrow> string" where
  "toString_hex bs = concat (map hex_byte bs)"

definition is_hex :: "char \<Rightarrow> bool" where
  "is_hex c = (c \<in> set ''0123456789abcdef'')"

text \<open>
  \<^verbatim>\<open>
  const tokenString = crypto.randomBytes(32).toString('hex');
  const signedToken = crypto.createHmac('sha256', secret)
    .update(JSON.stringify(tokenData)).digest('hex');
  const secureToken = `${tokenString}.${signedToken.substring(0, 16)}`;
  \<close>
  \<open>randomBytes\<close> is the buffer returned by \<^verbatim>\<open>crypto.randomBytes(32)\<close> (32 bytes) and
  \<open>hmacDigest\<close> the raw SHA-256 HMAC of the payload (32 bytes).
\<close>

definition tokenString :: "8 word list \<Rightarrow> string" where
  "tokenString randomBytes = toString_hex randomBytes"

definition signedToken :: "8 word list \<Rightarrow> string" where
  "signedToken hmacDigest = toString_hex hmacDigest"

definition secureToken :: "8 word list \<Rightarrow> 8 word list \<Rightarrow> string" where
  "secureToken randomBytes hmacDigest =
     tokenString randomBytes @ ''.'' @ take 16 (signedToken hmacDigest)"


section \<open>JavaScript numbers\<close>

text \<open>
  The numbers the quota evaluator adds and compares are IEEE 754 doubles. A finite double
  is modelled as the rational it denotes, and an arithmetic operation as the exact
  operation followed by \<open>to_double\<close>: rounding to the nearest rational with a significand
  of 53 bits, ties to the even significand. The exponent is not bounded. For the sum and
  the comparison of the evaluator this changes nothing on finite doubles: a sum of two
  doubles below the normal range is exact in both, and a sum that overflows is greater
  (or, when negative, not greater) than every finite limit in both.
\<close>

function bit_length :: "int \<Rightarrow> int" where
  "bit_length n = (if n \<le> 0 then 0 else 1 + bit_length (n div 2))"
  by pat_completeness auto
termination
  by (relation "measure nat") auto

declare bit_length.simps [simp del]

definition two_to :: "int \<Rightarrow> rat" where
  "two_to e = (if e \<ge> 0 then 2 ^ nat e else 1 / 2 ^ nat (- e))"

text \<open>The integer \<open>e\<close> with \<open>2\<^sup>e \<le> x < 2\<^sup>e\<^sup>+\<^sup>1\<close>, for a positive \<open>x\<close>.\<close>

definition floor_log2 :: "rat \<Rightarrow> int" where
  "floor_log2 x =
     (case quotient_of x of
        (p, q) \<Rightarrow>
          (let e = bit_length p - bit_length q
           in if x \<ge> two_to e then e else e - 1))"

definition round_half_even :: "rat \<Rightarrow> int" where
  "round_half_even q =
     (let f = \<lfloor>q\<rfloor>; d = q - of_int f
      in if d < 1 / 2 then f else if d > 1 / 2 then f + 1 else if even f then f else f + 1)"

definition to_double :: "rat \<Rightarrow> rat" where
  "to_double x =
     (if x = 0 then 0
      else
        (let a = \<bar>x\<bar>; e = floor_log2 a; ulp = two_to (e - 52);
             n = round_half_even (a / ulp)
         in sgn x * of_int n * ulp))"

definition js_add :: "rat \<Rightarrow> rat \<Rightarrow> rat" where
  "js_add a b = to_double (a + b)"

definition js_div :: "rat \<Rightarrow> rat \<Rightarrow> rat" where
  "js_div a b = to_double (a / b)"


section \<open>Persistence\<close>

text \<open>
  The class \<^verbatim>\<open>Database\<close> over the relational store (the Firestore class binds the calls
  of the upload route in the same way). The tables are lists of rows. A query is a
  promise that is rejected when the engine reports an error; \<open>failing\<close> says that the
  store rejects the queries of this request, and a query then returns \<open>Inl DbError\<close>. A
  call of a method the class does not define throws a \<^verbatim>\<open>TypeError\<close>. Times are
  milliseconds since the epoch (the value of a \<^verbatim>\<open>Date\<close>, which is also what the driver
  stores for a \<^verbatim>\<open>Date\<close> parameter).
\<close>

datatype js_error = DbError | TypeError string

record user_row =
  user_id :: nat
  user_email :: string

text \<open>
  \<^verbatim>\<open>
  CREATE TABLE IF NOT EXISTS upload_tokens (
    id INTEGER PRIMARY KEY AUTOINCREMENT, user_id INTEGER NOT NULL, token TEXT UNIQUE NOT NULL,
    event_name TEXT DEFAULT 'Photo Collection', created_at DATETIME DEFAULT CURRENT_TIMESTAMP,
    expires_at DATETIME NOT NULL, used BOOLEAN DEFAULT FALSE, ...)
  \<close>
  The columns the upload route reads; \<open>expires_at\<close> is \<open>None\<close> for \<^verbatim>\<open>NULL\<close>.
\<close>

record token_row =
  token_id :: nat
  token_user_id :: nat
  token_value :: string
  expires_at :: "int option"

text \<open>
  \<^verbatim>\<open>
  CREATE TABLE IF NOT EXISTS uploads (
    id INTEGER PRIMARY KEY AUTOINCREMENT, token_id INTEGER NOT NULL,
    original_name TEXT NOT NULL, filename TEXT NOT NULL, size INTEGER NOT NULL,
    mimetype TEXT NOT NULL, uploaded_at DATETIME DEFAULT CURRENT_TIMESTAMP,
    uploaded_to_bucket BOOLEAN DEFAULT FALSE, uploaded_to_drive BOOLEAN DEFAULT FALSE, ...)
  \<close>
  The engine stores a text that is no number as text in the column \<^verbatim>\<open>size\<close>, and the
  upload route passes a text there, so the column is a string here.
\<close>

record upload_row =
  upload_id :: nat
  upload_token_id :: nat
  upload_original_name :: string
  upload_filename :: string
  upload_size :: string
  upload_mimetype :: string
  uploaded_to_bucket :: bool
  uploaded_to_drive :: bool

text \<open>
  A row of \<^verbatim>\<open>user_subscriptions\<close> joined with its plan of \<^verbatim>\<open>subscription_plans\<close>:
  \<open>max_files\<close> is \<open>None\<close> for SQL \<^verbatim>\<open>NULL\<close>.
\<close>

record subscription_row =
  sub_id :: nat
  sub_user_id :: nat
  sub_status :: string
  sub_created_at :: int
  current_period_end :: int
  max_storage_gb :: rat
  max_files :: "int option"

record usage_row =
  usage_user_id :: nat
  usage_subscription_id :: nat
  file_count :: int
  storage_used_gb :: rat

record database =
  failing :: bool
  users :: "user_row list"
  upload_tokens :: "token_row list"
  uploads :: "upload_row list"
  next_upload_id :: nat
  user_subscriptions :: "subscription_row list"
  usage_tracking :: "usage_row list"

text \<open>
  \<^verbatim>\<open>
  SELECT t.*, u.email, u.drive_folder_name, u.bucket_name
  FROM upload_tokens t JOIN users u ON t.user_id = u.id
  WHERE t.token = ?                              (db.get: first row or undefined)
  \<close>
  The route reads none of the three user columns of the joined row.
\<close>

definition getTokenByValue :: "database \<Rightarrow> string \<Rightarrow> js_error + token_row option" where
  "getTokenByValue d token =
     (if failing d then Inl DbError
      else Inr (find (\<lambda>t. token_value t = token \<and>
                          list_ex (\<lambda>u. user_id u = token_user_id t) (users d))
                     (upload_tokens d)))"

text \<open>
  \<^verbatim>\<open>tokenData.max_uploads\<close>: the table \<^verbatim>\<open>upload_tokens\<close> has no column of that name
  (\<^verbatim>\<open>createToken\<close> stores the user, the token, the expiry and the event name), and the
  joined user columns have other names, so the property is \<^verbatim>\<open>undefined\<close> (\<open>None\<close>) on
  every row.
\<close>

definition max_uploads :: "token_row \<Rightarrow> int option" where
  "max_uploads tokenData = None"

text \<open>
  \<^verbatim>\<open>db.getUploadsByToken(token)\<close>: neither persistence class defines a method of that
  name, so the call throws before any query is made.
\<close>

definition getUploadsByToken :: "database \<Rightarrow> string \<Rightarrow> js_error + upload_row list" where
  "getUploadsByToken d token = Inl (TypeError ''db.getUploadsByToken is not a function'')"

text \<open>
  \<^verbatim>\<open>
  async createUpload(tokenId, originalName, filename, size, mimetype) {
    INSERT INTO uploads (token_id, original_name, filename, size, mimetype, uploaded_to_bucket)
    VALUES (?, ?, ?, ?, ?, TRUE)      -- resolve(this.lastID)
  }
  \<close>
\<close>

definition createUpload ::
  "database \<Rightarrow> nat \<Rightarrow> string \<Rightarrow> string \<Rightarrow> string \<Rightarrow> string \<Rightarrow> (js_error + nat) \<times> database" where
  "createUpload d tokenId originalName filename size' mimetype =
     (if failing d then (Inl DbError, d)
      else
        (Inr (next_upload_id d),
         d\<lparr>uploads := uploads d @
              [\<lparr>upload_id = next_upload_id d, upload_token_id = tokenId,
                upload_original_name = originalName, upload_filename = filename,
                upload_size = size', upload_mimetype = mimetype,
                uploaded_to_bucket = True, uploaded_to_drive = False\<rparr>],
           next_upload_id := Suc (next_upload_id d)\<rparr>))"

text \<open>
  \<^verbatim>\<open>
  SELECT us.*, sp.max_storage_gb, sp.max_files, ...
  FROM user_subscriptions us JOIN subscription_plans sp ON us.plan_id = sp.id
  WHERE us.user_id = ? AND us.status = 'active'
  ORDER BY us.created_at DESC LIMIT 1
  \<close>
\<close>

definition newest :: "subscription_row list \<Rightarrow> subscription_row option" where
  "newest rows =
     (case rows of
        [] \<Rightarrow> None
      | r # rs \<Rightarrow>
          Some (fold (\<lambda>x best. if sub_created_at x > sub_created_at best then x else best) rs r))"

definition getUserSubscription :: "database \<Rightarrow> nat \<Rightarrow> js_error + subscription_row option" where
  "getUserSubscription d userId =
     (if failing d then Inl DbError
      else Inr (newest (filter (\<lambda>s. sub_user_id s = userId \<and> sub_status s = ''active'')
                               (user_subscriptions d))))"

text \<open>
  \<^verbatim>\<open>
  SELECT ut.file_count, ut.storage_used_gb FROM usage_tracking ut
  WHERE ut.user_id = ? AND ut.subscription_id = ?
  \<close>
\<close>

definition getUsage :: "database \<Rightarrow> nat \<Rightarrow> nat \<Rightarrow> js_error + usage_row option" where
  "getUsage d userId subscriptionId =
     (if failing d then Inl DbError
      else Inr (find (\<lambda>u. usage_user_id u = userId \<and> usage_subscription_id u = subscriptionId)
                     (usage_tracking d)))"


section \<open>Quota evaluator\<close>

text \<open>
  \<^verbatim>\<open>Database.checkUsageLimits(userId, fileSize)\<close>. The reason strings of the source are
  the constructors of \<open>denial\<close>, in the order of the source:
  \<^verbatim>\<open>'No active subscription'\<close>, \<^verbatim>\<open>'Subscription expired'\<close>,
  \<^verbatim>\<open>`File limit exceeded (${max_files} files)`\<close> and
  \<^verbatim>\<open>`Storage limit exceeded (${max_storage_gb}GB)`\<close>.
\<close>

datatype denial =
    NoActiveSubscription
  | SubscriptionExpired
  | FileLimitExceeded int
  | StorageLimitExceeded rat

record usage_info =
  currentFiles :: int
  currentStorageGB :: rat
  maxFiles :: "int option"
  maxStorageGB :: rat

datatype usage_check = Denied denial | Allowed usage_info

text \<open>
  \<^verbatim>\<open>
  if (!subscription) { resolve({ allowed: false, reason: 'No active subscription' }); return; }
  const now = new Date();
  const expiresAt = new Date(subscription.current_period_end);
  if (now > expiresAt) { resolve({ allowed: false, reason: 'Subscription expired' }); return; }
  ... usage query ...
  const currentFiles = usage ? usage.file_count : 0;
  const currentStorageGB = usage ? usage.storage_used_gb : 0;
  const newFileSizeGB = fileSize / (1024 * 1024 * 1024);
  const totalStorageGB = currentStorageGB + newFileSizeGB;
  if (subscription.max_files && currentFiles >= subscription.max_files) { File limit exceeded }
  if (totalStorageGB > subscription.max_storage_gb) { Storage limit exceeded }
  resolve({ allowed: true, usage: { currentFiles, currentStorageGB, maxFiles, maxStorageGB } });
  \<close>
  In \<^verbatim>\<open>subscription.max_files && ...\<close> both \<^verbatim>\<open>null\<close> and \<^verbatim>\<open>0\<close> are falsy. The file
  size is a number of bytes, an integer that is a double.
\<close>

definition checkUsageLimits :: "database \<Rightarrow> int \<Rightarrow> nat \<Rightarrow> int \<Rightarrow> js_error + usage_check" where
  "checkUsageLimits d now userId fileSize =
     (case getUserSubscription d userId of
        Inl e \<Rightarrow> Inl e
      | Inr None \<Rightarrow> Inr (Denied NoActiveSubscription)
      | Inr (Some subscription) \<Rightarrow>
          if now > current_period_end subscription then Inr (Denied SubscriptionExpired)
          else
            (case getUsage d userId (sub_id subscription) of
               Inl e \<Rightarrow> Inl e
             | Inr usage \<Rightarrow>
                 (let currentFiles = (case usage of Some u \<Rightarrow> file_count u | None \<Rightarrow> 0);
                      currentStorageGB = (case usage of Some u \<Rightarrow> storage_used_gb u | None \<Rightarrow> 0);
                      newFileSizeGB = js_div (of_int fileSize) (1024 * 1024 * 1024);
                      totalStorageGB = js_add currentStorageGB newFileSizeGB;
                      fileLimit = (case max_files subscription of
                                     None \<Rightarrow> None
                                   | Some m \<Rightarrow> if m \<noteq> 0 \<and> currentFiles \<ge> m then Some m
                                              else None)
                  in case fileLimit of
                       Some m \<Rightarrow> Inr (Denied (FileLimitExceeded m))
                     | None \<Rightarrow>
                         if totalStorageGB > max_storage_gb subscription
                         then Inr (Denied (StorageLimitExceeded (max_storage_gb subscription)))
                         else Inr (Allowed \<lparr>currentFiles = currentFiles,
                                            currentStorageGB = currentStorageGB,
                                            maxFiles = max_files subscription,
                                            maxStorageGB = max_storage_gb subscription\<rparr>))))"


section \<open>Upload admission\<close>

text \<open>
  The route \<^verbatim>\<open>POST /api/upload/:token\<close> is the middleware
  \<^verbatim>\<open>upload.array('photos', 50)\<close> followed by the handler. The middleware writes the
  files of the multipart body to the directory \<^verbatim>\<open>uploads/\<close> before the handler runs.
\<close>

record incoming_file =
  part_fieldname :: string
  part_originalname :: string
  part_mimetype :: string
  part_size :: nat
  part_uniqueSuffix :: string

record multer_file =
  file_originalname :: string
  file_mimetype :: string
  file_size :: nat
  file_filename :: string
  file_path :: string

text \<open>
  Node's \<^verbatim>\<open>path.extname\<close> (POSIX): the text from the last dot of the last path component,
  empty when there is no dot, when the only dot is the first character, or when the
  component is \<^verbatim>\<open>..\<close>; and \<^verbatim>\<open>String.prototype.toLowerCase\<close> on ASCII letters.
\<close>

definition path_extname :: "string \<Rightarrow> string" where
  "path_extname p =
     (let trimmed = rev (dropWhile (\<lambda>c. c = CHR ''/'') (rev p));
          base = rev (takeWhile (\<lambda>c. c \<noteq> CHR ''/'') (rev trimmed));
          ext = rev (takeWhile (\<lambda>c. c \<noteq> CHR ''.'') (rev base))
      in if CHR ''.'' \<notin> set base \<or> Suc (length ext) = length base \<or> base = ''..'' then []
         else CHR ''.'' # ext)"

definition toLowerCase :: "string \<Rightarrow> string" where
  "toLowerCase s =
     map (\<lambda>c. if (65::nat) \<le> of_char c \<and> of_char c \<le> (90::nat)
               then char_of (of_char c + (32::nat)) else c) s"

text \<open>\<^verbatim>\<open>/jpeg|jpg|png|gif|bmp|webp/.test(s)\<close>: one of the alternatives occurs in \<open>s\<close>.\<close>

fun occurs_in :: "string \<Rightarrow> string \<Rightarrow> bool" where
  "occurs_in sub [] = (sub = [])"
| "occurs_in sub (c # cs) = (take (length sub) (c # cs) = sub \<or> occurs_in sub cs)"

definition allowedTypes_test :: "string \<Rightarrow> bool" where
  "allowedTypes_test s =
     list_ex (\<lambda>alt. occurs_in alt s) [''jpeg'', ''jpg'', ''png'', ''gif'', ''bmp'', ''webp'']"

text \<open>
  \<^verbatim>\<open>
  fileFilter: (req, file, cb) => {
    const allowedTypes = /jpeg|jpg|png|gif|bmp|webp/;
    const extname = allowedTypes.test(path.extname(file.originalname).toLowerCase());
    const mimetype = allowedTypes.test(file.mimetype);
    if (mimetype && extname) return cb(null, true);
    else cb(new Error('Only image files are allowed'));
  },
  limits: { fileSize: 10 * 1024 * 1024 }
  \<close>
\<close>

definition fileFilter :: "incoming_file \<Rightarrow> bool" where
  "fileFilter file =
     (let extname = allowedTypes_test (toLowerCase (path_extname (part_originalname file)));
          mimetype = allowedTypes_test (part_mimetype file)
      in mimetype \<and> extname)"

definition fileSize_limit :: nat where
  "fileSize_limit = 10 * 1024 * 1024"

text \<open>
  \<^verbatim>\<open>
  destination: cb(null, 'uploads/')
  filename: const uniqueSuffix = Date.now() + '-' + Math.round(Math.random() * 1E9);
            cb(null, file.fieldname + '-' + uniqueSuffix + path.extname(file.originalname));
  \<close>
  The clock reading and the random number are the field \<open>part_uniqueSuffix\<close> of the
  incoming file; its other fields are those of the multipart part.
\<close>

definition diskStorage :: "incoming_file \<Rightarrow> multer_file" where
  "diskStorage file =
     (let filename = part_fieldname file @ ''-'' @ part_uniqueSuffix file @ path_extname (part_originalname file)
      in \<lparr>file_originalname = part_originalname file, file_mimetype = part_mimetype file,
          file_size = part_size file, file_filename = filename,
          file_path = ''uploads/'' @ filename\<rparr>)"

datatype multer_error = LIMIT_UNEXPECTED_FILE | LIMIT_FILE_SIZE | OnlyImageFilesAllowed

text \<open>
  The library's part of \<^verbatim>\<open>upload.array('photos', 50)\<close>: the files are taken in order;
  a file of another field or a 51st file, a file the filter refuses and a file over the
  size limit end the request with an error, and the library then removes the files it has
  stored for this request. \<open>n\<close> counts the files accepted so far.
\<close>

fun multer_array :: "nat \<Rightarrow> incoming_file list \<Rightarrow> multer_error + multer_file list" where
  "multer_array n [] = Inr []"
| "multer_array n (f # fs) =
     (if part_fieldname f \<noteq> ''photos'' \<or> n \<ge> 50 then Inl LIMIT_UNEXPECTED_FILE
      else if \<not> fileFilter f then Inl OnlyImageFilesAllowed
      else if part_size f > fileSize_limit then Inl LIMIT_FILE_SIZE
      else (case multer_array (Suc n) fs of
              Inl e \<Rightarrow> Inl e
            | Inr stored \<Rightarrow> Inr (diskStorage f # stored)))"

text \<open>The server's state: the database and the paths of the files on the local disk.\<close>

record world =
  db :: database
  disk :: "string set"

datatype upload_error =
    InvalidTokenFormat
  | NoFilesUploaded
  | InvalidUploadToken
  | UploadTokenExpired
  | UploadLimitExceeded "int option"
  | UploadFailed js_error
  | MiddlewareError multer_error

record upload_result =
  result_id :: nat
  result_filename :: string

text \<open>
  A response is a rejection with its HTTP status and error, or the success body with the
  results and \<^verbatim>\<open>remainingUploads\<close> (\<open>None\<close> when the subtraction gives \<^verbatim>\<open>NaN\<close>).
\<close>

datatype response = Rejected nat upload_error | Accepted "upload_result list" "int option"

record upload_request =
  req_token :: string
  req_files :: "incoming_file list"
  guestName :: "string option"
  guestMessage :: "string option"

text \<open>\<^verbatim>\<open>guestName || 'Anonymous'\<close>: the default replaces a missing or empty value.\<close>

definition or_default :: "string option \<Rightarrow> string \<Rightarrow> string" where
  "or_default v dflt = (case v of None \<Rightarrow> dflt | Some s \<Rightarrow> if s = [] then dflt else s)"

text \<open>
  \<^verbatim>\<open>
  for (const file of req.files) {
    const uploadId = await db.createUpload(tokenData.user_id, token, file.filename,
      file.originalname, file.path, guestName || 'Anonymous', guestMessage || '');
    uploadResults.push({ id: uploadId, filename: file.originalname, status: 'pending' });
  }
  \<close>
  The seven arguments are bound by position to the five parameters of \<^verbatim>\<open>createUpload\<close>
  (\<^verbatim>\<open>tokenId, originalName, filename, size, mimetype\<close>); the two guest values are
  evaluated and dropped.
\<close>

fun createUploads ::
  "database \<Rightarrow> token_row \<Rightarrow> string \<Rightarrow> multer_file list \<Rightarrow> string \<Rightarrow> string
     \<Rightarrow> (js_error + upload_result list) \<times> database" where
  "createUploads d tokenData token [] gName gMessage = (Inr [], d)"
| "createUploads d tokenData token (file # files) gName gMessage =
     (case createUpload d (token_user_id tokenData) token (file_filename file)
             (file_originalname file) (file_path file) of
        (Inl e, d') \<Rightarrow> (Inl e, d')
      | (Inr uploadId, d') \<Rightarrow>
          (case createUploads d' tokenData token files gName gMessage of
             (Inl e, d'') \<Rightarrow> (Inl e, d'')
           | (Inr results, d'') \<Rightarrow>
               (Inr (\<lparr>result_id = uploadId, result_filename = file_originalname file\<rparr> # results),
                d'')))"

text \<open>
  The \<^verbatim>\<open>catch\<close> block of the handler: every file of the request is unlinked (a failure
  to unlink is caught and logged) and the answer is 500. Its test
  \<^verbatim>\<open>error.code === 'LIMIT_FILE_SIZE'\<close> is never true for an error of the persistence
  layer or a \<^verbatim>\<open>TypeError\<close>.
\<close>

definition upload_catch :: "world \<Rightarrow> multer_file list \<Rightarrow> js_error \<Rightarrow> response \<times> world" where
  "upload_catch w files e =
     (Rejected 500 (UploadFailed e), w\<lparr>disk := disk w - set (map file_path files)\<rparr>)"

text \<open>
  \<^verbatim>\<open>
  if (!validateToken(token)) return res.status(400).json({ error: 'Invalid token format' });
  if (!req.files || req.files.length === 0) return res.status(400)... 'No files uploaded'
  const tokenData = await db.getTokenByValue(token);
  if (!tokenData) return res.status(404).json({ error: 'Invalid upload token' });
  if (tokenData.expires_at && new Date() > new Date(tokenData.expires_at))
    return res.status(410).json({ error: 'Upload token has expired' });
  const existingUploads = await db.getUploadsByToken(token);
  const newUploadCount = req.files.length;
  const totalUploads = existingUploads.length + newUploadCount;
  if (totalUploads > tokenData.max_uploads) return res.status(413)... 'Upload limit exceeded...'
  ... createUpload for every file ...
  res.json({ success: true, uploads: uploadResults,
             remainingUploads: tokenData.max_uploads - totalUploads });
  \<close>
  In \<^verbatim>\<open>tokenData.expires_at && ...\<close> both \<^verbatim>\<open>null\<close> and \<^verbatim>\<open>0\<close> are falsy; a comparison
  with \<^verbatim>\<open>undefined\<close> is false and a subtraction from it is \<^verbatim>\<open>NaN\<close>.
\<close>

definition upload_handler ::
  "world \<Rightarrow> int \<Rightarrow> string \<Rightarrow> multer_file list \<Rightarrow> string option \<Rightarrow> string option
     \<Rightarrow> response \<times> world" where
  "upload_handler w now token files gName gMessage =
     (if \<not> validateToken token then (Rejected 400 InvalidTokenFormat, w)
      else if files = [] then (Rejected 400 NoFilesUploaded, w)
      else
        (case getTokenByValue (db w) token of
           Inl e \<Rightarrow> upload_catch w files e
         | Inr None \<Rightarrow> (Rejected 404 InvalidUploadToken, w)
         | Inr (Some tokenData) \<Rightarrow>
             if (case expires_at tokenData of None \<Rightarrow> False | Some t \<Rightarrow> t \<noteq> 0 \<and> now > t)
             then (Rejected 410 UploadTokenExpired, w)
             else
               (case getUploadsByToken (db w) token of
                  Inl e \<Rightarrow> upload_catch w files e
                | Inr existingUploads \<Rightarrow>
                    (let newUploadCount = int (length files);
                         totalUploads = int (length existingUploads) + newUploadCount
                     in if (case max_uploads tokenData of
                              None \<Rightarrow> False
                            | Some m \<Rightarrow> totalUploads > m)
                        then (Rejected 413 (UploadLimitExceeded (max_uploads tokenData)), w)
                        else
                          (case createUploads (db w) tokenData token files
                                  (or_default gName ''Anonymous'') (or_default gMessage []) of
                             (Inl e, d') \<Rightarrow> upload_catch (w\<lparr>db := d'\<rparr>) files e
                           | (Inr uploadResults, d') \<Rightarrow>
                               (Accepted uploadResults
                                  (map_option (\<lambda>m. m - totalUploads) (max_uploads tokenData)),
                                w\<lparr>db := d'\<rparr>))))))"

text \<open>
  The route: the middleware, then the handler. An error of the middleware goes to the
  framework's error handler (status 500) and the handler does not run.
\<close>

definition post_api_upload :: "world \<Rightarrow> int \<Rightarrow> upload_request \<Rightarrow> response \<times> world" where
  "post_api_upload w now req =
     (case multer_array 0 (req_files req) of
        Inl e \<Rightarrow> (Rejected 500 (MiddlewareError e), w)
      | Inr files \<Rightarrow>
          upload_handler (w\<lparr>disk := disk w \<union> set (map file_path files)\<rparr>) now
            (req_token req) files (guestName req) (guestMessage req))"



section \<open>Relay worker\<close>

text \<open>
  Two passes move admitted files to Google Drive: \<^verbatim>\<open>GoogleDriveUploader.processPendingUploads\<close>
  takes them from the local upload directory, \<^verbatim>\<open>processFromBucketToDrive\<close> of the worker
  script takes them from the storage bucket. Both read the tokens file, an object that
  maps each token to its data, and walk the uploads of every token.
\<close>

record upload =
  filename :: string
  originalName :: string
  mimetype :: string
  uploadedToBucket :: bool
  uploadedToDrive :: bool
  uploadedToDriveAt :: "string option"

record tokenData =
  td_uploads :: "upload list"

text \<open>
  What a pass can touch: the parsed content of the tokens file (\<open>None\<close> when the file
  cannot be read or parsed), the paths of the local files and the names of the objects in
  the bucket.
\<close>

record store =
  tokensFile :: "(string \<times> tokenData) list option"
  store_files :: "string set"
  store_objects :: "string set"

text \<open>
  What the surroundings decide during one pass: whether the Drive client and the bucket
  are configured, the two environment variables, what \<^verbatim>\<open>createFolder\<close> answers
  (\<open>None\<close> when it throws), which calls of the adapters and of \<^verbatim>\<open>fs.unlinkSync\<close>
  succeed, whether the tokens file can be written, and the clock.
\<close>

record environment =
  drive_configured :: bool
  bucket_configured :: bool
  DRIVE_FOLDER_NAME :: "string option"
  DRIVE_FOLDER_ID :: "string option"
  createFolder :: "string \<Rightarrow> string option"
  drive_uploadFile_ok :: "string \<Rightarrow> string \<Rightarrow> string \<Rightarrow> string \<Rightarrow> bool"
  bucket_downloadFile_ok :: "string \<Rightarrow> bool"
  bucket_deleteFile_ok :: "string \<Rightarrow> bool"
  unlinkSync_ok :: "string \<Rightarrow> bool"
  tokensFile_writable :: bool
  toISOString_now :: string

datatype pass_error = TokensFileUnreadable | CreateFolderFailed | TokensFileNotWritten

text \<open>The result \<^verbatim>\<open>{ processed, failed }\<close>, and the variables of a running pass.\<close>

record counters =
  processed :: nat
  failed :: nat

record pass_state = counters +
  local_files :: "string set"
  bucket_objects :: "string set"

text \<open>\<^verbatim>\<open>path.join(dir, name)\<close> for a directory and a plain file name.\<close>

definition path_join :: "string \<Rightarrow> string \<Rightarrow> string" where
  "path_join dir name = dir @ ''/'' @ name"

text \<open>
  \<^verbatim>\<open>fs.unlinkSync\<close>, \<^verbatim>\<open>gcpUploader.downloadFile\<close> and \<^verbatim>\<open>gcpUploader.deleteFile\<close>:
  \<open>None\<close> when the call throws.
\<close>

definition unlinkSync :: "environment \<Rightarrow> string \<Rightarrow> pass_state \<Rightarrow> pass_state option" where
  "unlinkSync env p st =
     (if p \<in> local_files st \<and> unlinkSync_ok env p
      then Some (st\<lparr>local_files := local_files st - {p}\<rparr>) else None)"

definition downloadFile :: "environment \<Rightarrow> string \<Rightarrow> string \<Rightarrow> pass_state \<Rightarrow> pass_state option" where
  "downloadFile env fileName localPath st =
     (if fileName \<in> bucket_objects st \<and> bucket_downloadFile_ok env fileName
      then Some (st\<lparr>local_files := insert localPath (local_files st)\<rparr>) else None)"

definition deleteFile :: "environment \<Rightarrow> string \<Rightarrow> pass_state \<Rightarrow> pass_state option" where
  "deleteFile env fileName st =
     (if fileName \<in> bucket_objects st \<and> bucket_deleteFile_ok env fileName
      then Some (st\<lparr>bucket_objects := bucket_objects st - {fileName}\<rparr>) else None)"

text \<open>
  \<^verbatim>\<open>
  const folderName = process.env.DRIVE_FOLDER_NAME || 'Guest Uploads';
  let folderId = process.env.DRIVE_FOLDER_ID;
  if (!folderId) {
    const folder = await this.createFolder(folderName);
    folderId = folder.id;
  }
  \<close>
\<close>

definition resolveFolder :: "environment \<Rightarrow> pass_error + string" where
  "resolveFolder env =
     (let folderName = or_default (DRIVE_FOLDER_NAME env) ''Guest Uploads'';
          folderId = DRIVE_FOLDER_ID env
      in case folderId of
           Some fid \<Rightarrow>
             if fid \<noteq> [] then Inr fid
             else (case createFolder env folderName of
                     None \<Rightarrow> Inl CreateFolderFailed | Some fid' \<Rightarrow> Inr fid')
         | None \<Rightarrow>
             (case createFolder env folderName of
                None \<Rightarrow> Inl CreateFolderFailed | Some fid' \<Rightarrow> Inr fid'))"

text \<open>
  \<^verbatim>\<open>
  for (const [token, tokenData] of Object.entries(tokens)) {
    for (const upload of tokenData.uploads) { body }
  }
  \<close>
  The body updates the upload object in place and the variables of the pass.
\<close>

fun forEachUpload ::
  "(upload \<Rightarrow> pass_state \<Rightarrow> upload \<times> pass_state) \<Rightarrow> upload list \<Rightarrow> pass_state
     \<Rightarrow> upload list \<times> pass_state" where
  "forEachUpload body [] st = ([], st)"
| "forEachUpload body (u # us) st =
     (case body u st of
        (u', st') \<Rightarrow>
          (case forEachUpload body us st' of
             (us', st'') \<Rightarrow> (u' # us', st'')))"

fun forEachToken ::
  "(upload \<Rightarrow> pass_state \<Rightarrow> upload \<times> pass_state) \<Rightarrow> (string \<times> tokenData) list \<Rightarrow> pass_state
     \<Rightarrow> (string \<times> tokenData) list \<times> pass_state" where
  "forEachToken body [] st = ([], st)"
| "forEachToken body ((token, tokenData) # entries) st =
     (case forEachUpload body (td_uploads tokenData) st of
        (us', st') \<Rightarrow>
          (case forEachToken body entries st' of
             (entries', st'') \<Rightarrow> ((token, tokenData\<lparr>td_uploads := us'\<rparr>) # entries', st'')))"

text \<open>
  The body of \<^verbatim>\<open>processPendingUploads\<close>:
  \<^verbatim>\<open>
  if (!upload.uploadedToDrive) {
    const filePath = path.join(uploadsDir, upload.filename);
    if (fs.existsSync(filePath)) {
      try {
        await this.uploadFile(filePath, upload.originalName, upload.mimetype, folderId);
        upload.uploadedToDrive = true;
        upload.uploadedToDriveAt = new Date().toISOString();
        processed++;
        fs.unlinkSync(filePath);
      } catch (error) { failed++; }
    } else {
      upload.uploadedToDrive = true; // Mark as processed to avoid retrying
      failed++;
    }
  }
  \<close>
\<close>

definition pendingUpload ::
  "environment \<Rightarrow> string \<Rightarrow> string \<Rightarrow> upload \<Rightarrow> pass_state \<Rightarrow> upload \<times> pass_state" where
  "pendingUpload env uploadsDir folderId upload st =
     (if \<not> uploadedToDrive upload then
        (let filePath = path_join uploadsDir (filename upload)
         in if filePath \<in> local_files st then
              (if drive_uploadFile_ok env filePath (originalName upload) (mimetype upload) folderId
               then
                 (let upload' = upload\<lparr>uploadedToDrive := True,
                                       uploadedToDriveAt := Some (toISOString_now env)\<rparr>;
                      st' = st\<lparr>processed := processed st + 1\<rparr>
                  in case unlinkSync env filePath st' of
                       Some st'' \<Rightarrow> (upload', st'')
                     | None \<Rightarrow> (upload', st'\<lparr>failed := failed st' + 1\<rparr>))
               else (upload, st\<lparr>failed := failed st + 1\<rparr>))
            else (upload\<lparr>uploadedToDrive := True\<rparr>, st\<lparr>failed := failed st + 1\<rparr>))
      else (upload, st))"

text \<open>
  The body of \<^verbatim>\<open>processFromBucketToDrive\<close>:
  \<^verbatim>\<open>
  if (upload.uploadedToBucket && !upload.uploadedToDrive) {
    try {
      const tempFilePath = path.join(tempDir, upload.filename);
      await gcpUploader.downloadFile(upload.filename, tempFilePath);
      await uploader.uploadFile(tempFilePath, upload.originalName, upload.mimetype, folderId);
      await gcpUploader.deleteFile(upload.filename);
      fs.unlinkSync(tempFilePath);
      upload.uploadedToDrive = true;
      upload.uploadedToDriveAt = new Date().toISOString();
      processed++;
    } catch (error) { failed++; }
  }
  \<close>
\<close>

definition bucketUpload ::
  "environment \<Rightarrow> string \<Rightarrow> string \<Rightarrow> upload \<Rightarrow> pass_state \<Rightarrow> upload \<times> pass_state" where
  "bucketUpload env tempDir folderId upload st =
     (if uploadedToBucket upload \<and> \<not> uploadedToDrive upload then
        (let tempFilePath = path_join tempDir (filename upload)
         in case downloadFile env (filename upload) tempFilePath st of
              None \<Rightarrow> (upload, st\<lparr>failed := failed st + 1\<rparr>)
            | Some st1 \<Rightarrow>
                if \<not> drive_uploadFile_ok env tempFilePath (originalName upload)
                        (mimetype upload) folderId
                then (upload, st1\<lparr>failed := failed st1 + 1\<rparr>)
                else
                  (case deleteFile env (filename upload) st1 of
                     None \<Rightarrow> (upload, st1\<lparr>failed := failed st1 + 1\<rparr>)
                   | Some st2 \<Rightarrow>
                       (case unlinkSync env tempFilePath st2 of
                          None \<Rightarrow> (upload, st2\<lparr>failed := failed st2 + 1\<rparr>)
                        | Some st3 \<Rightarrow>
                            (upload\<lparr>uploadedToDrive := True,
                                    uploadedToDriveAt := Some (toISOString_now env)\<rparr>,
                             st3\<lparr>processed := processed st3 + 1\<rparr>))))
      else (upload, st))"

text \<open>
  One pass: read the tokens file, resolve the folder, walk the uploads, write the tokens
  file, return the counters. An error outside the per-file \<^verbatim>\<open>try\<close> is rethrown by the
  outer \<^verbatim>\<open>catch\<close>: the pass ends with \<open>Inl\<close>, and what it has already done to the
  files stays done.
\<close>

definition run_pass ::
  "environment \<Rightarrow> (string \<Rightarrow> upload \<Rightarrow> pass_state \<Rightarrow> upload \<times> pass_state) \<Rightarrow> store
     \<Rightarrow> (pass_error + counters) \<times> store" where
  "run_pass env body s =
     (case tokensFile s of
        None \<Rightarrow> (Inl TokensFileUnreadable, s)
      | Some tokens \<Rightarrow>
          (case resolveFolder env of
             Inl e \<Rightarrow> (Inl e, s)
           | Inr folderId \<Rightarrow>
               (case forEachToken (body folderId) tokens
                       \<lparr>processed = 0, failed = 0, local_files = store_files s,
                        bucket_objects = store_objects s\<rparr> of
                  (tokens', st) \<Rightarrow>
                    if tokensFile_writable env
                    then (Inr \<lparr>processed = processed st, failed = failed st\<rparr>,
                          \<lparr>tokensFile = Some tokens', store_files = local_files st,
                           store_objects = bucket_objects st\<rparr>)
                    else (Inl TokensFileNotWritten,
                          s\<lparr>store_files := local_files st,
                            store_objects := bucket_objects st\<rparr>))))"

text \<open>
  \<^verbatim>\<open>
  async processPendingUploads(tokensFile, uploadsDir) {
    if (!this.drive) return { processed: 0, failed: 0 };
    try { ... } catch (error) { throw error; }
  }
  \<close>
\<close>

definition processPendingUploads ::
  "environment \<Rightarrow> string \<Rightarrow> store \<Rightarrow> (pass_error + counters) \<times> store" where
  "processPendingUploads env uploadsDir s =
     (if \<not> drive_configured env then (Inr \<lparr>processed = 0, failed = 0\<rparr>, s)
      else run_pass env (pendingUpload env uploadsDir) s)"

text \<open>
  \<^verbatim>\<open>
  async function processFromBucketToDrive() {
    if (!uploader.drive) return { processed: 0, failed: 0 };
    if (!gcpUploader.bucket) return { processed: 0, failed: 0 };
    try { ... } catch (error) { throw error; }
  }
  \<close>
\<close>

definition processFromBucketToDrive ::
  "environment \<Rightarrow> string \<Rightarrow> store \<Rightarrow> (pass_error + counters) \<times> store" where
  "processFromBucketToDrive env tempDir s =
     (if \<not> drive_configured env then (Inr \<lparr>processed = 0, failed = 0\<rparr>, s)
      else if \<not> bucket_configured env then (Inr \<lparr>processed = 0, failed = 0\<rparr>, s)
      else run_pass env (bucketUpload env tempDir) s)"

text \<open>The uploads of a tokens file in the order of the walk, and the candidates of each pass.\<close>

definition all_uploads :: "(string \<times> tokenData) list \<Rightarrow> upload list" where
  "all_uploads tokens = concat (map (\<lambda>(token, tokenData). td_uploads tokenData) tokens)"

definition pending :: "upload \<Rightarrow> bool" where
  "pending upload = (\<not> uploadedToDrive upload)"

definition in_bucket_pending :: "upload \<Rightarrow> bool" where
  "in_bucket_pending upload = (uploadedToBucket upload \<and> \<not> uploadedToDrive upload)"


section \<open>Example data\<close>

text \<open>
  A database with user 1, one token of that user that expires at time 5000, and no
  subscription at all; an empty disk; a request that carries one JPEG of 1000 bytes
  under the token, one that carries two, and one under a string that is not of the token
  shape. In \<open>epoch_world\<close> the stored expiry of the token is 0.
\<close>

definition example_token :: string where
  "example_token = replicate 64 CHR ''a'' @ ''.'' @ replicate 16 CHR ''b''"

definition example_photo :: incoming_file where
  "example_photo =
     \<lparr>part_fieldname = ''photos'', part_originalname = ''photo.jpg'',
      part_mimetype = ''image/jpeg'', part_size = 1000,
      part_uniqueSuffix = ''1700000000000-123456789''\<rparr>"

definition second_photo :: incoming_file where
  "second_photo =
     \<lparr>part_fieldname = ''photos'', part_originalname = ''second.jpg'',
      part_mimetype = ''image/jpeg'', part_size = 2000,
      part_uniqueSuffix = ''1700000000001-987654321''\<rparr>"

definition example_token_row :: token_row where
  "example_token_row =
     \<lparr>token_id = 1, token_user_id = 1, token_value = example_token, expires_at = Some 5000\<rparr>"

definition example_db :: database where
  "example_db =
     \<lparr>failing = False, users = [\<lparr>user_id = 1, user_email = ''host@example.org''\<rparr>],
      upload_tokens = [example_token_row],
      uploads = [], next_upload_id = 1, user_subscriptions = [], usage_tracking = []\<rparr>"

definition example_world :: world where
  "example_world = \<lparr>db = example_db, disk = {}\<rparr>"

definition example_request :: upload_request where
  "example_request =
     \<lparr>req_token = example_token, req_files = [example_photo],
      guestName = None, guestMessage = None\<rparr>"

definition two_photo_request :: upload_request where
  "two_photo_request = example_request\<lparr>req_files := [example_photo, second_photo]\<rparr>"

definition malformed_request :: upload_request where
  "malformed_request = example_request\<lparr>req_token := ''not-a-token''\<rparr>"



text \<open>
  The same database after user 1 has bought a plan of 1 GB and ten files that ends at
  time 5000, with three files and half a gigabyte used; with a plan whose file limit is
  0 and nothing used; and with a plan of \<open>2\<^sup>2\<^sup>4\<close> GB, no file limit, that is used up to
  the last byte.
\<close>

definition example_subscription :: subscription_row where
  "example_subscription =
     \<lparr>sub_id = 7, sub_user_id = 1, sub_status = ''active'', sub_created_at = 100,
      current_period_end = 5000, max_storage_gb = 1, max_files = Some 10\<rparr>"

definition subscribed_db :: database where
  "subscribed_db =
     example_db\<lparr>user_subscriptions := [example_subscription],
                usage_tracking := [\<lparr>usage_user_id = 1, usage_subscription_id = 7,
                                    file_count = 3, storage_used_gb = 1 / 2\<rparr>]\<rparr>"

definition zero_limit_db :: database where
  "zero_limit_db =
     example_db\<lparr>user_subscriptions := [example_subscription\<lparr>max_files := Some 0\<rparr>]\<rparr>"

definition full_plan_db :: database where
  "full_plan_db =
     example_db\<lparr>user_subscriptions :=
                  [example_subscription\<lparr>max_files := None, max_storage_gb := 16777216\<rparr>],
                usage_tracking := [\<lparr>usage_user_id = 1, usage_subscription_id = 7,
                                    file_count = 3, storage_used_gb = 16777216\<rparr>]\<rparr>"

text \<open>
  A tokens file with three pending uploads of one token: the local file of the first is
  gone, the Drive adapter refuses the second, the third goes through. The environment
  has the folder identifier configured, so \<^verbatim>\<open>createFolder\<close> (which would throw) is not
  called.
\<close>

definition lost_upload :: upload where
  "lost_upload =
     \<lparr>filename = ''lost.jpg'', originalName = ''lost.jpg'', mimetype = ''image/jpeg'',
      uploadedToBucket = False, uploadedToDrive = False, uploadedToDriveAt = None\<rparr>"

definition broken_upload :: upload where
  "broken_upload =
     \<lparr>filename = ''broken.jpg'', originalName = ''broken.jpg'', mimetype = ''image/jpeg'',
      uploadedToBucket = True, uploadedToDrive = False, uploadedToDriveAt = None\<rparr>"

definition kept_upload :: upload where
  "kept_upload =
     \<lparr>filename = ''kept.jpg'', originalName = ''kept.jpg'', mimetype = ''image/jpeg'',
      uploadedToBucket = True, uploadedToDrive = False, uploadedToDriveAt = None\<rparr>"

definition example_store :: store where
  "example_store =
     \<lparr>tokensFile = Some [(''token-1'', \<lparr>td_uploads = [lost_upload, broken_upload, kept_upload]\<rparr>)],
      store_files = {''uploads/broken.jpg'', ''uploads/kept.jpg''},
      store_objects = {''broken.jpg'', ''kept.jpg''}\<rparr>"

definition example_env :: environment where
  "example_env =
     \<lparr>drive_configured = True, bucket_configured = True,
      DRIVE_FOLDER_NAME = None, DRIVE_FOLDER_ID = Some ''folder-1'',
      createFolder = (\<lambda>folderName. None),
      drive_uploadFile_ok = (\<lambda>filePath fileName mimeType folderId. fileName \<noteq> ''broken.jpg''),
      bucket_downloadFile_ok = (\<lambda>fileName. True),
      bucket_deleteFile_ok = (\<lambda>fileName. True),
      unlinkSync_ok = (\<lambda>p. True),
      tokensFile_writable = True,
      toISOString_now = ''2024-01-01T00:00:00.000Z''\<rparr>"

text \<open>The same environment with a healthy adapter, without a folder, and with a disk
  that refuses to unlink.\<close>

definition healthy_env :: environment where
  "healthy_env = example_env\<lparr>drive_uploadFile_ok := (\<lambda>filePath fileName mimeType folderId. True)\<rparr>"

definition folderless_env :: environment where
  "folderless_env = example_env\<lparr>DRIVE_FOLDER_ID := None\<rparr>"

definition sticky_env :: environment where
  "sticky_env = example_env\<lparr>unlinkSync_ok := (\<lambda>p. False)\<rparr>"

definition single_store :: store where
  "single_store =
     \<lparr>tokensFile = Some [(''token-1'', \<lparr>td_uploads = [kept_upload]\<rparr>)],
      store_files = {''uploads/kept.jpg''}, store_objects = {''kept.jpg''}\<rparr>"


section \<open>Properties of the token codec\<close>

lemma split_on_nonempty: "split_on c s \<noteq> []"
  by (cases s) (simp_all add: Let_def)

lemma split_on_no_sep: "c \<notin> set s \<Longrightarrow> split_on c s = [s]"
  by (induction s) (auto simp: Let_def)

lemma split_on_append:
  "c \<notin> set a \<Longrightarrow> split_on c (a @ c # b) = a # split_on c b"
  by (induction a) (auto simp: Let_def)

lemma validateToken_two_segments:
  assumes "CHR ''.'' \<notin> set a" and "CHR ''.'' \<notin> set b"
    and "length a = 64" and "length b = 16"
  shows "validateToken (a @ ''.'' @ b)"
proof -
  have "split_on CHR ''.'' (a @ ''.'' @ b) = [a, b]"
    using assms(1,2) by (simp add: split_on_append split_on_no_sep)
  then show ?thesis
    using assms(3,4) by (simp add: validateToken_def)
qed

lemma hex_digit_is_hex: "is_hex (hex_digit n)"
proof -
  have "n mod 16 < length ''0123456789abcdef''" by simp
  then have "''0123456789abcdef'' ! (n mod 16) \<in> set ''0123456789abcdef''"
    by (rule nth_mem)
  then show ?thesis by (simp only: is_hex_def hex_digit_def)
qed

lemma toString_hex_length: "length (toString_hex bs) = 2 * length bs"
  by (induction bs) (simp_all add: toString_hex_def hex_byte_def)

lemma toString_hex_is_hex: "c \<in> set (toString_hex bs) \<Longrightarrow> is_hex c"
  by (auto simp: toString_hex_def hex_byte_def hex_digit_is_hex)

lemma is_hex_not_dot: "is_hex c \<Longrightarrow> c \<noteq> CHR ''.''"
  by (auto simp: is_hex_def)

lemma update_keeps_no_dot:
  "CHR ''.'' \<notin> set a \<Longrightarrow> c \<noteq> CHR ''.'' \<Longrightarrow> CHR ''.'' \<notin> set (a[i := c])"
  using set_update_subset_insert [of a i c] by auto

lemma tokenString_shape:
  "length randomBytes = 32 \<Longrightarrow>
   length (tokenString randomBytes) = 64 \<and> (\<forall>c \<in> set (tokenString randomBytes). is_hex c)"
  by (simp add: tokenString_def toString_hex_length toString_hex_is_hex)

lemma signature_shape:
  "length hmacDigest = 32 \<Longrightarrow>
   length (take 16 (signedToken hmacDigest)) = 16 \<and>
   (\<forall>c \<in> set (take 16 (signedToken hmacDigest)). is_hex c)"
  by (auto simp: signedToken_def toString_hex_length dest: in_set_takeD toString_hex_is_hex)

lemma mutated_first_segment:
  assumes "CHR ''.'' \<notin> set a" and "CHR ''.'' \<notin> set b"
    and "length a = 64" and "length b = 16" and "c \<noteq> CHR ''.''"
  shows "validateToken (a[i := c] @ ''.'' @ b)"
  using assms by (intro validateToken_two_segments update_keeps_no_dot) simp_all

lemma mutated_second_segment:
  assumes "CHR ''.'' \<notin> set a" and "CHR ''.'' \<notin> set b"
    and "length a = 64" and "length b = 16" and "c \<noteq> CHR ''.''"
  shows "validateToken (a @ ''.'' @ b[i := c])"
  using assms by (intro validateToken_two_segments update_keeps_no_dot) simp_all

lemma update_differs: "i < length xs \<Longrightarrow> v \<noteq> xs ! i \<Longrightarrow> xs[i := v] \<noteq> xs"
  by (metis nth_list_update_eq)

text \<open>
  Claim C6. A minted token is \<open>a.b\<close> with \<open>a\<close> of 64 and \<open>b\<close> of 16 lower-case
  hexadecimal digits, and \<^verbatim>\<open>validateToken\<close> accepts it. Replacing one character of
  either segment by any character other than the separator (a dot would cut the segment
  in two, so the segment lengths would not be preserved) gives a string that
  \<^verbatim>\<open>validateToken\<close> accepts as well, although it differs from the minted token
  whenever the new character differs from the old one.
\<close>

theorem mint_passes_validateToken:
  assumes "length randomBytes = 32" and "length hmacDigest = 32"
  shows "secureToken randomBytes hmacDigest =
           tokenString randomBytes @ ''.'' @ take 16 (signedToken hmacDigest) \<and>
         length (tokenString randomBytes) = 64 \<and>
         length (take 16 (signedToken hmacDigest)) = 16 \<and>
         (\<forall>c \<in> set (tokenString randomBytes). is_hex c) \<and>
         (\<forall>c \<in> set (take 16 (signedToken hmacDigest)). is_hex c) \<and>
         validateToken (secureToken randomBytes hmacDigest) \<and>
         (\<forall>i c. i < 64 \<and> c \<noteq> CHR ''.'' \<longrightarrow>
            validateToken ((tokenString randomBytes)[i := c] @ ''.'' @
                           take 16 (signedToken hmacDigest)) \<and>
            (c \<noteq> tokenString randomBytes ! i \<longrightarrow>
               (tokenString randomBytes)[i := c] @ ''.'' @ take 16 (signedToken hmacDigest)
                 \<noteq> secureToken randomBytes hmacDigest)) \<and>
         (\<forall>i c. i < 16 \<and> c \<noteq> CHR ''.'' \<longrightarrow>
            validateToken (tokenString randomBytes @ ''.'' @
                           (take 16 (signedToken hmacDigest))[i := c]) \<and>
            (c \<noteq> take 16 (signedToken hmacDigest) ! i \<longrightarrow>
               tokenString randomBytes @ ''.'' @ (take 16 (signedToken hmacDigest))[i := c]
                 \<noteq> secureToken randomBytes hmacDigest))"
proof -
  define a where "a = tokenString randomBytes"
  define b where "b = take 16 (signedToken hmacDigest)"
  have eq: "secureToken randomBytes hmacDigest = a @ ''.'' @ b"
    by (simp add: secureToken_def a_def b_def)
  have la: "length a = 64" and ha: "\<forall>c \<in> set a. is_hex c"
    using tokenString_shape [OF assms(1)] by (simp_all add: a_def)
  have lb: "length b = 16" and hb: "\<forall>c \<in> set b. is_hex c"
    using signature_shape [OF assms(2)] by (simp_all add: b_def)
  have da: "CHR ''.'' \<notin> set a" using ha is_hex_not_dot by blast
  have db: "CHR ''.'' \<notin> set b" using hb is_hex_not_dot by blast
  have ok: "validateToken (a @ ''.'' @ b)"
    using da db la lb by (rule validateToken_two_segments)
  have m1: "validateToken (a[i := c] @ ''.'' @ b) \<and>
            (c \<noteq> a ! i \<longrightarrow> a[i := c] @ ''.'' @ b \<noteq> a @ ''.'' @ b)"
    if "i < 64 \<and> c \<noteq> CHR ''.''" for i c
    using that mutated_first_segment [OF da db la lb, of c i] update_differs [of i a c] la
    by simp
  have m2: "validateToken (a @ ''.'' @ b[i := c]) \<and>
            (c \<noteq> b ! i \<longrightarrow> a @ ''.'' @ b[i := c] \<noteq> a @ ''.'' @ b)"
    if "i < 16 \<and> c \<noteq> CHR ''.''" for i c
    using that mutated_second_segment [OF da db la lb, of c i] update_differs [of i b c] lb
    by simp
  show ?thesis
    unfolding eq a_def [symmetric] b_def [symmetric]
    using la lb ha hb ok m1 m2 by blast
qed

theorem mint_passes_validateToken_witness:
  "length (replicate 32 (171 :: 8 word)) = 32 \<and> length (replicate 32 (1 :: 8 word)) = 32 \<and>
   validateToken (secureToken (replicate 32 171) (replicate 32 1)) \<and>
   validateToken ((tokenString (replicate 32 171))[0 := CHR ''z''] @ ''.'' @
                  take 16 (signedToken (replicate 32 1)))"
proof -
  have h1: "length (replicate 32 (171 :: 8 word)) = 32"
    and h2: "length (replicate 32 (1 :: 8 word)) = 32" by simp_all
  note t = mint_passes_validateToken [OF h1 h2]
  from t have v: "validateToken (secureToken (replicate 32 171) (replicate 32 1))"
    by blast
  from t have "\<forall>i c. i < 64 \<and> c \<noteq> CHR ''.'' \<longrightarrow>
      validateToken ((tokenString (replicate 32 171))[i := c] @ ''.'' @
                     take 16 (signedToken (replicate 32 1)))"
    by blast
  then have "(0::nat) < 64 \<and> CHR ''z'' \<noteq> CHR ''.'' \<longrightarrow>
      validateToken ((tokenString (replicate 32 171))[0 := CHR ''z''] @ ''.'' @
                     take 16 (signedToken (replicate 32 1)))"
    by blast
  then have m: "validateToken ((tokenString (replicate 32 171))[0 := CHR ''z''] @ ''.'' @
                     take 16 (signedToken (replicate 32 1)))"
    by simp
  show ?thesis using h1 h2 v m by blast
qed


section \<open>Properties of upload admission and of the quota evaluator\<close>


subsection \<open>The example request\<close>


lemma example_token_valid: "validateToken example_token"
  unfolding example_token_def by (rule validateToken_two_segments) simp_all

lemma example_photo_filtered: "fileFilter example_photo"
  by (simp add: fileFilter_def example_photo_def path_extname_def toLowerCase_def
      allowedTypes_test_def)

lemma second_photo_filtered: "fileFilter second_photo"
  by (simp add: fileFilter_def second_photo_def path_extname_def toLowerCase_def
      allowedTypes_test_def)

lemma example_photo_stored:
  "multer_array 0 [example_photo] = Inr [diskStorage example_photo]"
  by (simp add: example_photo_filtered fileSize_limit_def) (simp add: example_photo_def)

lemma two_photos_stored:
  "multer_array 0 [example_photo, second_photo] =
     Inr [diskStorage example_photo, diskStorage second_photo]"
  by (simp add: example_photo_filtered second_photo_filtered fileSize_limit_def)
     (simp add: example_photo_def second_photo_def)

lemma example_photo_path:
  "file_path (diskStorage example_photo) = ''uploads/photos-1700000000000-123456789.jpg''"
  by (simp add: diskStorage_def example_photo_def path_extname_def Let_def)

lemma example_token_found:
  "getTokenByValue example_db example_token = Inr (Some example_token_row)"
  by (simp add: getTokenByValue_def example_db_def example_token_row_def)

subsection \<open>The upload route\<close>

text \<open>
  A request that gets past the expiry check ends in the \<^verbatim>\<open>catch\<close> block: the files of
  the request are unlinked and the answer is 500.
\<close>

lemma upload_stops_at_count:
  assumes "validateToken token" and "files \<noteq> []"
    and "getTokenByValue (db w) token = Inr (Some tokenData)"
    and "\<not> (case expires_at tokenData of None \<Rightarrow> False | Some t \<Rightarrow> t \<noteq> 0 \<and> now > t)"
  shows "upload_handler w now token files gName gMessage =
           (Rejected 500 (UploadFailed (TypeError ''db.getUploadsByToken is not a function'')),
            w\<lparr>disk := disk w - set (map file_path files)\<rparr>)"
  using assms by (simp add: upload_handler_def getUploadsByToken_def upload_catch_def)

text \<open>
  No request is answered with the upload-limit error, whatever the database holds: the
  comparison \<^verbatim>\<open>totalUploads > tokenData.max_uploads\<close> is not reached, and were it
  reached it would compare with \<^verbatim>\<open>undefined\<close>.
\<close>

lemma upload_limit_never_reported:
  "fst (post_api_upload w now req) \<noteq> Rejected 413 e"
  by (auto simp: post_api_upload_def upload_handler_def upload_catch_def getUploadsByToken_def
      split: sum.splits option.splits)

text \<open>
  Claim C2, evaluated on the code. The token of the request exists, is not expired and has
  no upload yet; the request carries two JPEG files. The row of the token has no
  \<open>max_uploads\<close>, whatever limit was asked for when the token was created, and the count
  of the existing uploads is a call of a method that the persistence class does not have.
  The request is not answered 413 with the upload-limit error: the call throws, the
  \<^verbatim>\<open>catch\<close> block unlinks the two files, and the answer is 500. No upload record is
  written and the disk is the one before the request.
\<close>

theorem upload_count_check_never_reached:
  "length (req_files two_photo_request) = 2 \<and>
   getTokenByValue (db example_world) (req_token two_photo_request) =
     Inr (Some example_token_row) \<and>
   max_uploads example_token_row = None \<and>
   uploads (db example_world) = [] \<and>
   post_api_upload example_world 1000 two_photo_request =
     (Rejected 500 (UploadFailed (TypeError ''db.getUploadsByToken is not a function'')),
      example_world)"
proof -
  have tok: "getTokenByValue (db example_world) (req_token two_photo_request) =
      Inr (Some example_token_row)"
    by (simp add: example_world_def two_photo_request_def example_request_def
        example_token_found)
  have files: "multer_array 0 (req_files two_photo_request) =
      Inr [diskStorage example_photo, diskStorage second_photo]"
    by (simp add: two_photo_request_def example_request_def two_photos_stored
        del: multer_array.simps)
  have live: "\<not> (case expires_at example_token_row of
                    None \<Rightarrow> False | Some t \<Rightarrow> t \<noteq> 0 \<and> (1000::int) > t)"
    by (simp add: example_token_row_def)
  have valid: "validateToken (req_token two_photo_request)"
    by (simp add: two_photo_request_def example_request_def example_token_valid)
  have "post_api_upload example_world 1000 two_photo_request =
     (Rejected 500 (UploadFailed (TypeError ''db.getUploadsByToken is not a function'')),
      example_world)"
    unfolding post_api_upload_def files
    using upload_stops_at_count [OF valid _ _ live,
        of "[diskStorage example_photo, diskStorage second_photo]"
           "example_world\<lparr>disk := disk example_world \<union>
              set (map file_path [diskStorage example_photo, diskStorage second_photo])\<rparr>"]
      tok
    by (simp add: example_world_def)
  then show ?thesis
    using tok by (simp add: two_photo_request_def example_request_def max_uploads_def
        example_world_def example_db_def)
qed





text \<open>
  A string that is not of the token shape is answered 400 after the middleware has stored
  the files.
\<close>

lemma malformed_token_rejected:
  assumes "\<not> validateToken (req_token req)"
    and "multer_array 0 (req_files req) = Inr files"
  shows "post_api_upload w now req =
           (Rejected 400 InvalidTokenFormat, w\<lparr>disk := disk w \<union> set (map file_path files)\<rparr>)"
  using assms by (simp add: post_api_upload_def upload_handler_def)

text \<open>
  Claim C5, evaluated on the code. The request carries a string that is not of the token
  shape and one JPEG. The handler answers 400 (invalid token format) and the database is
  untouched, but the middleware has written the file to \<^verbatim>\<open>uploads/\<close> before the handler
  ran and the handler returns without unlinking it: the disk, empty before the request,
  holds the file after it.
\<close>

theorem malformed_token_leaves_files:
  "\<not> validateToken (req_token malformed_request) \<and>
   disk example_world = {} \<and>
   post_api_upload example_world 1000 malformed_request =
     (Rejected 400 InvalidTokenFormat,
      example_world\<lparr>disk := {''uploads/photos-1700000000000-123456789.jpg''}\<rparr>)"
proof -
  have bad: "\<not> validateToken (req_token malformed_request)"
    by (simp add: malformed_request_def validateToken_def)
  have files: "multer_array 0 (req_files malformed_request) = Inr [diskStorage example_photo]"
    by (simp add: malformed_request_def example_request_def example_photo_stored
        del: multer_array.simps)
  show ?thesis
    using bad malformed_token_rejected [OF bad files, of example_world 1000]
    by (simp add: example_photo_path example_world_def)
qed

theorem malformed_token_leaves_files_witness:
  "disk (snd (post_api_upload example_world 1000 malformed_request)) \<noteq> disk example_world \<and>
   db (snd (post_api_upload example_world 1000 malformed_request)) = db example_world"
  using malformed_token_leaves_files by simp

subsection \<open>The upload route and the quota evaluator\<close>









subsection \<open>The quota evaluator\<close>

text \<open>
  Claim C3 as stated fails in three places. The newest active subscription of user 1 ends
  at 5000, and at time 9000 the evaluator denies with the reason \<open>SubscriptionExpired\<close>,
  not with \<open>NoActiveSubscription\<close>. With a maximum file count of \<open>0\<close> and no file yet,
  the file count has reached the maximum, but \<open>0\<close> is falsy in
  \<^verbatim>\<open>subscription.max_files && ...\<close> and the evaluator allows the upload. With
  \<open>2\<^sup>2\<^sup>4\<close> GB used of \<open>2\<^sup>2\<^sup>4\<close> GB, one more byte exceeds the maximum, but the sum
  of the two doubles is \<open>2\<^sup>2\<^sup>4\<close> again and the evaluator allows the upload.
\<close>

theorem quota_evaluator_differs:
  "getUserSubscription subscribed_db 1 = Inr (Some example_subscription) \<and>
   current_period_end example_subscription < 9000 \<and>
   checkUsageLimits subscribed_db 9000 1 1000 = Inr (Denied SubscriptionExpired) \<and>
   checkUsageLimits subscribed_db 9000 1 1000 \<noteq> Inr (Denied NoActiveSubscription) \<and>
   getUserSubscription zero_limit_db 1 =
     Inr (Some (example_subscription\<lparr>max_files := Some 0\<rparr>)) \<and>
   getUsage zero_limit_db 1 7 = Inr None \<and>
   checkUsageLimits zero_limit_db 1000 1 1000 =
     Inr (Allowed \<lparr>currentFiles = 0, currentStorageGB = 0,
                    maxFiles = Some 0, maxStorageGB = 1\<rparr>) \<and>
   getUserSubscription full_plan_db 1 =
     Inr (Some (example_subscription\<lparr>max_files := None, max_storage_gb := 16777216\<rparr>)) \<and>
   (16777216::rat) + 1 / (1024 * 1024 * 1024) > 16777216 \<and>
   checkUsageLimits full_plan_db 1000 1 1 =
     Inr (Allowed \<lparr>currentFiles = 3, currentStorageGB = 16777216,
                    maxFiles = None, maxStorageGB = 16777216\<rparr>)"
proof -
  have s1: "getUserSubscription subscribed_db 1 = Inr (Some example_subscription)"
    by (simp add: getUserSubscription_def newest_def subscribed_db_def example_db_def
        example_subscription_def)
  have s2: "getUserSubscription zero_limit_db 1 =
     Inr (Some (example_subscription\<lparr>max_files := Some 0\<rparr>))"
    by (simp add: getUserSubscription_def newest_def zero_limit_db_def example_db_def
        example_subscription_def)
  have s3: "getUserSubscription full_plan_db 1 =
     Inr (Some (example_subscription\<lparr>max_files := None, max_storage_gb := 16777216\<rparr>))"
    by (simp add: getUserSubscription_def newest_def full_plan_db_def example_db_def
        example_subscription_def)
  have u2: "getUsage zero_limit_db 1 7 = Inr None"
    by (simp add: getUsage_def zero_limit_db_def example_db_def)
  have past: "current_period_end example_subscription < 9000"
    by (simp add: example_subscription_def)
  have c1: "checkUsageLimits subscribed_db 9000 1 1000 = Inr (Denied SubscriptionExpired)"
    by code_simp
  have c2: "checkUsageLimits zero_limit_db 1000 1 1000 =
     Inr (Allowed \<lparr>currentFiles = 0, currentStorageGB = 0,
                    maxFiles = Some 0, maxStorageGB = 1\<rparr>)"
    by code_simp
  have c3: "checkUsageLimits full_plan_db 1000 1 1 =
     Inr (Allowed \<lparr>currentFiles = 3, currentStorageGB = 16777216,
                    maxFiles = None, maxStorageGB = 16777216\<rparr>)"
    by code_simp
  have more: "(16777216::rat) + 1 / (1024 * 1024 * 1024) > 16777216" by simp
  show ?thesis using s1 s2 s3 u2 past c1 c2 c3 more by simp
qed

text \<open>
  Claim C3, amended. When the subscription query answers, the evaluator decides in this
  order: no active subscription row gives \<open>NoActiveSubscription\<close>; a row whose period
  end is before now gives \<open>SubscriptionExpired\<close>; otherwise, when the usage query
  answers (no usage row counts as zero files and zero storage): a maximum file count that
  is set, is not \<open>0\<close> and has been reached by the file count gives \<open>FileLimitExceeded\<close>;
  otherwise (no maximum file count, the maximum \<open>0\<close>, or a file count below the
  maximum), if the double-precision sum of the storage used and of the requested size in
  GB is above the maximum storage, \<open>StorageLimitExceeded\<close>; otherwise the upload is
  allowed and the current usage and the limits are returned.
\<close>

theorem checkUsageLimits_decision_order:
  assumes "getUserSubscription d userId = Inr sub"
  shows "(sub = None \<longrightarrow>
            checkUsageLimits d now userId fileSize = Inr (Denied NoActiveSubscription)) \<and>
         (\<forall>s. sub = Some s \<and> now > current_period_end s \<longrightarrow>
            checkUsageLimits d now userId fileSize = Inr (Denied SubscriptionExpired)) \<and>
         (\<forall>s usage files storage total.
            sub = Some s \<and> \<not> now > current_period_end s \<and>
            getUsage d userId (sub_id s) = Inr usage \<and>
            files = (case usage of Some u \<Rightarrow> file_count u | None \<Rightarrow> 0) \<and>
            storage = (case usage of Some u \<Rightarrow> storage_used_gb u | None \<Rightarrow> 0) \<and>
            total = js_add storage (js_div (of_int fileSize) (1024 * 1024 * 1024)) \<longrightarrow>
            (\<forall>m. max_files s = Some m \<and> m \<noteq> 0 \<and> files \<ge> m \<longrightarrow>
               checkUsageLimits d now userId fileSize = Inr (Denied (FileLimitExceeded m))) \<and>
            ((max_files s = None \<or> max_files s = Some 0 \<or>
              (\<exists>m. max_files s = Some m \<and> files < m)) \<and>
             total > max_storage_gb s \<longrightarrow>
               checkUsageLimits d now userId fileSize =
                 Inr (Denied (StorageLimitExceeded (max_storage_gb s)))) \<and>
            ((max_files s = None \<or> max_files s = Some 0 \<or>
              (\<exists>m. max_files s = Some m \<and> files < m)) \<and>
             \<not> total > max_storage_gb s \<longrightarrow>
               checkUsageLimits d now userId fileSize =
                 Inr (Allowed \<lparr>currentFiles = files, currentStorageGB = storage,
                                maxFiles = max_files s, maxStorageGB = max_storage_gb s\<rparr>)))"
  using assms
  by (auto simp: checkUsageLimits_def Let_def split: option.splits)

theorem checkUsageLimits_decision_order_witness:
  "getUserSubscription subscribed_db 1 = Inr (Some example_subscription) \<and>
   checkUsageLimits subscribed_db 9000 1 1000 = Inr (Denied SubscriptionExpired) \<and>
   checkUsageLimits subscribed_db 1000 1 1000 =
     Inr (Allowed \<lparr>currentFiles = 3, currentStorageGB = 1 / 2,
                    maxFiles = Some 10, maxStorageGB = 1\<rparr>)"
proof -
  have sub: "getUserSubscription subscribed_db 1 = Inr (Some example_subscription)"
    by (simp add: getUserSubscription_def newest_def subscribed_db_def example_db_def
        example_subscription_def)
  have usage: "getUsage subscribed_db 1 (sub_id example_subscription) =
      Inr (Some \<lparr>usage_user_id = 1, usage_subscription_id = 7,
                 file_count = 3, storage_used_gb = 1 / 2\<rparr>)"
    by (simp add: getUsage_def subscribed_db_def example_db_def example_subscription_def)
  have total: "js_add (1 / 2) (js_div (of_int 1000) (1024 * 1024 * 1024)) =
      1 / 2 + 1000 / (1024 * 1024 * 1024)"
    by code_simp
  note order = checkUsageLimits_decision_order [OF sub]
  have expired: "checkUsageLimits subscribed_db 9000 1 1000 = Inr (Denied SubscriptionExpired)"
    using order [of 9000 1000] by (simp add: example_subscription_def)
  have allowed: "checkUsageLimits subscribed_db 1000 1 1000 =
     Inr (Allowed \<lparr>currentFiles = 3, currentStorageGB = 1 / 2,
                    maxFiles = Some 10, maxStorageGB = 1\<rparr>)"
    using order [of 1000 1000] usage total by (simp add: example_subscription_def)
  show ?thesis using sub expired allowed by simp
qed

section \<open>Properties of the relay worker\<close>

subsection \<open>The walk over the uploads\<close>

lemma forEachUpload_length:
  "forEachUpload body us st = (us', st') \<Longrightarrow> length us' = length us"
  by (induction us arbitrary: st us' st') (auto split: prod.splits)

lemma forEachUpload_nth:
  assumes inv: "\<And>u s. P s \<Longrightarrow> P (snd (body u s))"
  shows "P st \<Longrightarrow> forEachUpload body us st = (us', st') \<Longrightarrow>
         P st' \<and> (\<forall>j < length us. \<exists>s. P s \<and> us' ! j = fst (body (us ! j) s))"
proof (induction us arbitrary: st us' st')
  case Nil
  then show ?case by simp
next
  case (Cons u us)
  obtain u1 s1 where b: "body u st = (u1, s1)" by (cases "body u st")
  obtain us2 s2 where r: "forEachUpload body us s1 = (us2, s2)"
    by (cases "forEachUpload body us s1")
  have res: "us' = u1 # us2" "st' = s2" using Cons.prems(2) b r by simp_all
  have p1: "P s1" using inv [OF Cons.prems(1), of u] b by simp
  from Cons.IH [OF p1 r]
  have ih: "P s2" "\<forall>j < length us. \<exists>s. P s \<and> us2 ! j = fst (body (us ! j) s)" by simp_all
  have "\<exists>s. P s \<and> us' ! j = fst (body ((u # us) ! j) s)" if "j < length (u # us)" for j
  proof (cases j)
    case 0
    then show ?thesis using Cons.prems(1) b res by auto
  next
    case (Suc k)
    then show ?thesis using ih(2) that res by auto
  qed
  then show ?case using ih(1) res by blast
qed

lemma forEachUpload_count:
  assumes step: "\<And>u s. (f :: pass_state \<Rightarrow> nat) (snd (body u s)) = f s + w u"
  shows "forEachUpload body us st = (us', st') \<Longrightarrow> f st' = f st + sum_list (map w us)"
proof (induction us arbitrary: st us' st')
  case Nil
  then show ?case by simp
next
  case (Cons u us)
  obtain u1 s1 where b: "body u st = (u1, s1)" by (cases "body u st")
  obtain us2 s2 where r: "forEachUpload body us s1 = (us2, s2)"
    by (cases "forEachUpload body us s1")
  have "st' = s2" using Cons.prems b r by simp
  moreover have "f s1 = f st + w u" using step [of u st] b by simp
  moreover have "f s2 = f s1 + sum_list (map w us)" using Cons.IH [OF r] .
  ultimately show ?case by simp
qed

lemma forEachUpload_at_least:
  assumes inv: "\<And>u s. P s \<Longrightarrow> P (snd (body u s))"
    and step: "\<And>u s. P s \<Longrightarrow> (f :: pass_state \<Rightarrow> nat) (snd (body u s)) \<ge> f s + w u"
  shows "P st \<Longrightarrow> forEachUpload body us st = (us', st') \<Longrightarrow>
         f st' \<ge> f st + sum_list (map w us)"
proof (induction us arbitrary: st us' st')
  case Nil
  then show ?case by simp
next
  case (Cons u us)
  obtain u1 s1 where b: "body u st = (u1, s1)" by (cases "body u st")
  obtain us2 s2 where r: "forEachUpload body us s1 = (us2, s2)"
    by (cases "forEachUpload body us s1")
  have "st' = s2" using Cons.prems(2) b r by simp
  moreover have p1: "P s1" using inv [OF Cons.prems(1), of u] b by simp
  moreover have "f s1 \<ge> f st + w u" using step [OF Cons.prems(1), of u] b by simp
  moreover have "f s2 \<ge> f s1 + sum_list (map w us)" using Cons.IH [OF p1 r] .
  ultimately show ?case by simp
qed

lemma forEachUpload_idle:
  "(\<And>u s. u \<in> set us \<Longrightarrow> body u s = (u, s)) \<Longrightarrow> forEachUpload body us st = (us, st)"
  by (induction us arbitrary: st) simp_all

lemma all_uploads_Cons:
  "all_uploads ((token, tokenData) # entries) = td_uploads tokenData @ all_uploads entries"
  by (simp add: all_uploads_def)

lemma all_uploads_Nil: "all_uploads [] = []"
  by (simp add: all_uploads_def)

lemma forEachToken_idle:
  "(\<And>u s. u \<in> set (all_uploads ts) \<Longrightarrow> body u s = (u, s)) \<Longrightarrow>
   forEachToken body ts st = (ts, st)"
proof (induction ts arbitrary: st)
  case Nil
  then show ?case by simp
next
  case (Cons e ts)
  obtain token tokenData where e: "e = (token, tokenData)" by (cases e)
  have 1: "forEachUpload body (td_uploads tokenData) st = (td_uploads tokenData, st)"
    using Cons.prems by (intro forEachUpload_idle) (simp add: e all_uploads_Cons)
  have 2: "forEachToken body ts st = (ts, st)"
    using Cons.prems by (intro Cons.IH) (simp add: e all_uploads_Cons)
  show ?case by (simp add: e 1 2)
qed

lemma forEachToken_count:
  assumes step: "\<And>u s. (f :: pass_state \<Rightarrow> nat) (snd (body u s)) = f s + w u"
  shows "forEachToken body ts st = (ts', st') \<Longrightarrow>
         f st' = f st + sum_list (map w (all_uploads ts))"
proof (induction ts arbitrary: st ts' st')
  case Nil
  then show ?case by (simp add: all_uploads_Nil)
next
  case (Cons e ts)
  obtain token tokenData where e: "e = (token, tokenData)" by (cases e)
  obtain us1 s1 where b: "forEachUpload body (td_uploads tokenData) st = (us1, s1)"
    by (cases "forEachUpload body (td_uploads tokenData) st")
  obtain ts2 s2 where r: "forEachToken body ts s1 = (ts2, s2)"
    by (cases "forEachToken body ts s1")
  have "st' = s2" using Cons.prems e b r by simp
  moreover have "f s1 = f st + sum_list (map w (td_uploads tokenData))"
    using forEachUpload_count [of f body w, OF step b] .
  moreover have "f s2 = f s1 + sum_list (map w (all_uploads ts))" using Cons.IH [OF r] .
  ultimately show ?case by (simp add: e all_uploads_Cons)
qed

lemma forEachToken_at_least:
  assumes inv: "\<And>u s. P s \<Longrightarrow> P (snd (body u s))"
    and step: "\<And>u s. P s \<Longrightarrow> (f :: pass_state \<Rightarrow> nat) (snd (body u s)) \<ge> f s + w u"
  shows "P st \<Longrightarrow> forEachToken body ts st = (ts', st') \<Longrightarrow>
         f st' \<ge> f st + sum_list (map w (all_uploads ts))"
proof (induction ts arbitrary: st ts' st')
  case Nil
  then show ?case by (simp add: all_uploads_Nil)
next
  case (Cons e ts)
  obtain token tokenData where e: "e = (token, tokenData)" by (cases e)
  obtain us1 s1 where b: "forEachUpload body (td_uploads tokenData) st = (us1, s1)"
    by (cases "forEachUpload body (td_uploads tokenData) st")
  obtain ts2 s2 where r: "forEachToken body ts s1 = (ts2, s2)"
    by (cases "forEachToken body ts s1")
  have "st' = s2" using Cons.prems(2) e b r by simp
  moreover have p1: "P s1"
    using forEachUpload_nth [of P body, OF inv Cons.prems(1) b] by simp
  moreover have "f s1 \<ge> f st + sum_list (map w (td_uploads tokenData))"
    using forEachUpload_at_least [of P body f w, OF inv step Cons.prems(1) b] .
  moreover have "f s2 \<ge> f s1 + sum_list (map w (all_uploads ts))"
    using Cons.IH [OF p1 r] .
  ultimately show ?case by (simp add: e all_uploads_Cons)
qed

text \<open>The upload at position \<open>j\<close> of the entry at position \<open>i\<close>.\<close>

lemma forEachToken_nth:
  assumes inv: "\<And>u s. P s \<Longrightarrow> P (snd (body u s))"
  shows "P st \<Longrightarrow> forEachToken body ts st = (ts', st') \<Longrightarrow>
         P st' \<and> length ts' = length ts \<and>
         (\<forall>i < length ts.
            fst (ts' ! i) = fst (ts ! i) \<and>
            length (td_uploads (snd (ts' ! i))) = length (td_uploads (snd (ts ! i))) \<and>
            (\<forall>j < length (td_uploads (snd (ts ! i))).
               \<exists>s. P s \<and>
                 td_uploads (snd (ts' ! i)) ! j = fst (body (td_uploads (snd (ts ! i)) ! j) s)))"
proof (induction ts arbitrary: st ts' st')
  case Nil
  then show ?case by simp
next
  case (Cons e ts)
  obtain token tokenData where e: "e = (token, tokenData)" by (cases e)
  obtain us1 s1 where b: "forEachUpload body (td_uploads tokenData) st = (us1, s1)"
    by (cases "forEachUpload body (td_uploads tokenData) st")
  obtain ts2 s2 where r: "forEachToken body ts s1 = (ts2, s2)"
    by (cases "forEachToken body ts s1")
  have res: "ts' = (token, tokenData\<lparr>td_uploads := us1\<rparr>) # ts2" "st' = s2"
    using Cons.prems(2) e b r by simp_all
  from forEachUpload_nth [of P body, OF inv Cons.prems(1) b]
  have h: "P s1"
    "\<forall>j < length (td_uploads tokenData).
       \<exists>s. P s \<and> us1 ! j = fst (body (td_uploads tokenData ! j) s)"
    by simp_all
  have l1: "length us1 = length (td_uploads tokenData)"
    using b by (rule forEachUpload_length)
  from Cons.IH [OF h(1) r]
  have ih: "P s2" "length ts2 = length ts"
    "\<forall>i < length ts.
       fst (ts2 ! i) = fst (ts ! i) \<and>
       length (td_uploads (snd (ts2 ! i))) = length (td_uploads (snd (ts ! i))) \<and>
       (\<forall>j < length (td_uploads (snd (ts ! i))).
          \<exists>s. P s \<and>
            td_uploads (snd (ts2 ! i)) ! j = fst (body (td_uploads (snd (ts ! i)) ! j) s))"
    by simp_all
  have "fst (ts' ! i) = fst ((e # ts) ! i) \<and>
        length (td_uploads (snd (ts' ! i))) = length (td_uploads (snd ((e # ts) ! i))) \<and>
        (\<forall>j < length (td_uploads (snd ((e # ts) ! i))).
           \<exists>s. P s \<and>
             td_uploads (snd (ts' ! i)) ! j =
               fst (body (td_uploads (snd ((e # ts) ! i)) ! j) s))"
    if "i < length (e # ts)" for i
  proof (cases i)
    case 0
    then show ?thesis using h(2) l1 by (simp add: res e)
  next
    case (Suc k)
    then have "k < length ts" using that by simp
    then show ?thesis using ih(3) Suc by (simp add: res)
  qed
  then show ?case using ih(1,2) res by simp
qed

lemma all_uploads_nth:
  "i < length ts \<Longrightarrow> j < length (td_uploads (snd (ts ! i))) \<Longrightarrow>
   td_uploads (snd (ts ! i)) ! j \<in> set (all_uploads ts)"
  unfolding all_uploads_def
  by (auto simp: split_def intro!: bexI [of _ "ts ! i"])

lemma all_uploads_position:
  assumes "u \<in> set (all_uploads ts)"
  shows "\<exists>i j. i < length ts \<and> j < length (td_uploads (snd (ts ! i))) \<and>
               u = td_uploads (snd (ts ! i)) ! j"
proof -
  from assms obtain e where e: "e \<in> set ts" "u \<in> set (td_uploads (snd e))"
    by (auto simp: all_uploads_def)
  from e(1) obtain i where i: "i < length ts" "ts ! i = e"
    by (auto simp: in_set_conv_nth)
  from e(2) obtain j where j: "j < length (td_uploads (snd e))" "td_uploads (snd e) ! j = u"
    by (auto simp: in_set_conv_nth)
  show ?thesis using i j by auto
qed

lemma count_candidates:
  "sum_list (map (\<lambda>u. if c u then 1 else 0) us) = length (filter c us)"
  by (induction us) simp_all

subsection \<open>processPendingUploads\<close>

lemma pendingUpload_done:
  "uploadedToDrive u \<Longrightarrow> pendingUpload env dir fid u st = (u, st)"
  by (simp add: pendingUpload_def)

lemma pendingUpload_missing:
  "\<not> uploadedToDrive u \<Longrightarrow> path_join dir (filename u) \<notin> local_files st \<Longrightarrow>
   pendingUpload env dir fid u st = (u\<lparr>uploadedToDrive := True\<rparr>, st\<lparr>failed := failed st + 1\<rparr>)"
  by (simp add: pendingUpload_def Let_def)

lemma pendingUpload_transfer_fails:
  "\<not> uploadedToDrive u \<Longrightarrow> path_join dir (filename u) \<in> local_files st \<Longrightarrow>
   \<not> drive_uploadFile_ok env (path_join dir (filename u)) (originalName u) (mimetype u) fid \<Longrightarrow>
   pendingUpload env dir fid u st = (u, st\<lparr>failed := failed st + 1\<rparr>)"
  by (simp add: pendingUpload_def Let_def)

lemma pendingUpload_files:
  "local_files (snd (pendingUpload env dir fid u st)) \<subseteq> local_files st"
  by (auto simp: pendingUpload_def Let_def unlinkSync_def split: option.splits if_splits)

lemma pendingUpload_keeps_done:
  "uploadedToDrive u \<Longrightarrow> uploadedToDrive (fst (pendingUpload env dir fid u st))"
  by (simp add: pendingUpload_done)

lemma pendingUpload_counts_unlink_ok:
  "(\<And>p. unlinkSync_ok env p) \<Longrightarrow>
   processed (snd (pendingUpload env dir fid u st)) + failed (snd (pendingUpload env dir fid u st)) =
   processed st + failed st + (if pending u then 1 else 0)"
  by (simp add: pendingUpload_def Let_def unlinkSync_def pending_def)

lemma pendingUpload_failed_missing:
  "local_files st \<subseteq> F \<Longrightarrow>
   failed (snd (pendingUpload env dir fid u st)) \<ge>
   failed st + (if pending u \<and> path_join dir (filename u) \<notin> F then 1 else 0)"
  by (auto simp: pendingUpload_def Let_def unlinkSync_def pending_def split: option.splits)

subsection \<open>processFromBucketToDrive\<close>

lemma bucketUpload_idle:
  "\<not> in_bucket_pending u \<Longrightarrow> bucketUpload env tmp fid u st = (u, st)"
  by (auto simp: bucketUpload_def in_bucket_pending_def)

lemma bucketUpload_counts:
  "processed (snd (bucketUpload env tmp fid u st)) + failed (snd (bucketUpload env tmp fid u st)) =
   processed st + failed st + (if in_bucket_pending u then 1 else 0)"
  by (simp add: bucketUpload_def Let_def unlinkSync_def downloadFile_def deleteFile_def
      in_bucket_pending_def split: option.splits)

lemma bucketUpload_transfer_fails:
  assumes "in_bucket_pending u"
    and "downloadFile env (filename u) (path_join tmp (filename u)) st = None \<or>
         \<not> drive_uploadFile_ok env (path_join tmp (filename u)) (originalName u) (mimetype u) fid"
  shows "fst (bucketUpload env tmp fid u st) = u \<and>
         bucket_objects (snd (bucketUpload env tmp fid u st)) = bucket_objects st \<and>
         failed (snd (bucketUpload env tmp fid u st)) = failed st + 1 \<and>
         processed (snd (bucketUpload env tmp fid u st)) = processed st"
  using assms
  by (auto simp: bucketUpload_def Let_def downloadFile_def in_bucket_pending_def
      split: option.splits if_splits)

subsection \<open>A pass\<close>

lemma run_pass_Inr:
  assumes "run_pass env body s = (Inr summary, s')"
  obtains tokens folderId tokens' st where
    "tokensFile s = Some tokens" "resolveFolder env = Inr folderId" "tokensFile_writable env"
    "forEachToken (body folderId) tokens
       \<lparr>processed = 0, failed = 0, local_files = store_files s,
        bucket_objects = store_objects s\<rparr> = (tokens', st)"
    "summary = \<lparr>processed = processed st, failed = failed st\<rparr>"
    "s' = \<lparr>tokensFile = Some tokens', store_files = local_files st,
           store_objects = bucket_objects st\<rparr>"
  using assms
  by (auto simp: run_pass_def split: option.splits sum.splits prod.splits if_splits)

lemma run_pass_total:
  assumes "tokensFile s = Some tokens" "resolveFolder env = Inr folderId" "tokensFile_writable env"
  shows "\<exists>tokens' st.
           forEachToken (body folderId) tokens
             \<lparr>processed = 0, failed = 0, local_files = store_files s,
              bucket_objects = store_objects s\<rparr> = (tokens', st) \<and>
           run_pass env body s =
             (Inr \<lparr>processed = processed st, failed = failed st\<rparr>,
              \<lparr>tokensFile = Some tokens', store_files = local_files st,
               store_objects = bucket_objects st\<rparr>)"
  using assms by (auto simp: run_pass_def split: prod.splits)

lemma run_pass_aborts:
  "tokensFile s = Some tokens \<Longrightarrow> resolveFolder env = Inl e \<Longrightarrow> run_pass env body s = (Inl e, s)"
  by (simp add: run_pass_def)

lemma run_pass_idle:
  assumes "tokensFile s = Some tokens" "resolveFolder env = Inr folderId" "tokensFile_writable env"
    and "\<And>u st. u \<in> set (all_uploads tokens) \<Longrightarrow> body folderId u st = (u, st)"
  shows "run_pass env body s = (Inr \<lparr>processed = 0, failed = 0\<rparr>, s)"
proof -
  have "forEachToken (body folderId) tokens
          \<lparr>processed = 0, failed = 0, local_files = store_files s,
           bucket_objects = store_objects s\<rparr> =
        (tokens, \<lparr>processed = 0, failed = 0, local_files = store_files s,
           bucket_objects = store_objects s\<rparr>)"
    using assms(4) by (rule forEachToken_idle)
  then show ?thesis using assms(1-3) by (simp add: run_pass_def)
qed

lemma resolveFolder_fails:
  "DRIVE_FOLDER_ID env = None \<or> DRIVE_FOLDER_ID env = Some [] \<Longrightarrow>
   createFolder env (or_default (DRIVE_FOLDER_NAME env) ''Guest Uploads'') = None \<Longrightarrow>
   resolveFolder env = Inl CreateFolderFailed"
  by (auto simp: resolveFolder_def Let_def)

subsection \<open>Claims about the passes\<close>

text \<open>
  Claim C7. Let a pass of \<^verbatim>\<open>processPendingUploads\<close> with a configured Drive client
  return its counters. Every upload that was pending before the pass and whose local
  file is absent is, in the tokens file the pass writes, the same upload marked
  \<^verbatim>\<open>uploadedToDrive\<close> (without a transfer time); the loop body leaves an upload so marked
  alone in any later pass, whatever that pass's environment; the failure counter of the
  pass is at least the number of such uploads; and the body, on such an upload, does
  nothing but mark it and add one to the failure counter: no transfer is attempted and
  the processed counter and the files stay as they are.
\<close>

theorem missing_local_file_is_force_marked:
  assumes run: "processPendingUploads env uploadsDir s = (Inr summary, s')"
    and cfg: "drive_configured env"
    and t0: "tokensFile s = Some tokens" and t1: "tokensFile s' = Some tokens'"
  shows "length tokens' = length tokens \<and>
    (\<forall>i j. i < length tokens \<and> j < length (td_uploads (snd (tokens ! i))) \<and>
           pending (td_uploads (snd (tokens ! i)) ! j) \<and>
           path_join uploadsDir (filename (td_uploads (snd (tokens ! i)) ! j)) \<notin> store_files s \<longrightarrow>
           td_uploads (snd (tokens' ! i)) ! j =
             (td_uploads (snd (tokens ! i)) ! j)\<lparr>uploadedToDrive := True\<rparr> \<and>
           (\<forall>env2 dir2 fid2 st2.
              pendingUpload env2 dir2 fid2 (td_uploads (snd (tokens' ! i)) ! j) st2 =
                (td_uploads (snd (tokens' ! i)) ! j, st2))) \<and>
    failed summary \<ge>
      length (filter (\<lambda>u. pending u \<and> path_join uploadsDir (filename u) \<notin> store_files s)
                (all_uploads tokens)) \<and>
    (\<forall>u st fid. pending u \<and> path_join uploadsDir (filename u) \<notin> local_files st \<longrightarrow>
        pendingUpload env uploadsDir fid u st =
          (u\<lparr>uploadedToDrive := True\<rparr>, st\<lparr>failed := failed st + 1\<rparr>))"
proof -
  define P where "P st \<longleftrightarrow> local_files st \<subseteq> store_files s" for st :: pass_state
  define st0 :: pass_state where
    "st0 = \<lparr>processed = 0, failed = 0, local_files = store_files s,
            bucket_objects = store_objects s\<rparr>"
  from run cfg have "run_pass env (pendingUpload env uploadsDir) s = (Inr summary, s')"
    by (simp add: processPendingUploads_def)
  then obtain fid st where
    walk: "forEachToken (pendingUpload env uploadsDir fid) tokens st0 = (tokens', st)"
    and sum: "summary = \<lparr>processed = processed st, failed = failed st\<rparr>"
    using t0 t1 by (auto simp: st0_def elim!: run_pass_Inr)
  have inv: "P (snd (pendingUpload env uploadsDir fid u x))" if "P x" for u x
    using that pendingUpload_files [of env uploadsDir fid u x] by (auto simp: P_def)
  have P0: "P st0" by (simp add: P_def st0_def)
  note nth = forEachToken_nth [of P "pendingUpload env uploadsDir fid", OF inv P0 walk]
  have len: "length tokens' = length tokens" using nth by simp
  have marked: "td_uploads (snd (tokens' ! i)) ! j =
             (td_uploads (snd (tokens ! i)) ! j)\<lparr>uploadedToDrive := True\<rparr> \<and>
           (\<forall>env2 dir2 fid2 st2.
              pendingUpload env2 dir2 fid2 (td_uploads (snd (tokens' ! i)) ! j) st2 =
                (td_uploads (snd (tokens' ! i)) ! j, st2))"
    if h: "i < length tokens \<and> j < length (td_uploads (snd (tokens ! i))) \<and>
           pending (td_uploads (snd (tokens ! i)) ! j) \<and>
           path_join uploadsDir (filename (td_uploads (snd (tokens ! i)) ! j)) \<notin> store_files s"
    for i j
  proof -
    let ?u = "td_uploads (snd (tokens ! i)) ! j"
    from nth h obtain x where x: "P x"
      "td_uploads (snd (tokens' ! i)) ! j = fst (pendingUpload env uploadsDir fid ?u x)"
      by blast
    have "path_join uploadsDir (filename ?u) \<notin> local_files x"
      using x(1) h by (auto simp: P_def)
    then have eq: "td_uploads (snd (tokens' ! i)) ! j = ?u\<lparr>uploadedToDrive := True\<rparr>"
      using x(2) h by (simp add: pendingUpload_missing pending_def)
    show ?thesis unfolding eq by (simp add: pendingUpload_done)
  qed
  have step: "failed (snd (pendingUpload env uploadsDir fid u x)) \<ge>
      failed x + (if pending u \<and> path_join uploadsDir (filename u) \<notin> store_files s then 1 else 0)"
    if "P x" for u x
    using that pendingUpload_failed_missing [where st = x and F = "store_files s"]
    by (simp add: P_def)
  have "failed st \<ge> failed st0 +
      sum_list (map (\<lambda>u. if pending u \<and> path_join uploadsDir (filename u) \<notin> store_files s
                          then 1 else 0) (all_uploads tokens))"
    using forEachToken_at_least [of P "pendingUpload env uploadsDir fid" failed _ st0 tokens tokens' st,
        OF inv step P0 walk] .
  then have count: "failed summary \<ge>
      length (filter (\<lambda>u. pending u \<and> path_join uploadsDir (filename u) \<notin> store_files s)
                (all_uploads tokens))"
    by (simp add: sum st0_def count_candidates)
  have skip: "pendingUpload env uploadsDir fid' u x =
          (u\<lparr>uploadedToDrive := True\<rparr>, x\<lparr>failed := failed x + 1\<rparr>)"
    if "pending u \<and> path_join uploadsDir (filename u) \<notin> local_files x" for u x fid'
    using that by (simp add: pendingUpload_missing pending_def)
  show ?thesis using len marked count skip by blast
qed


lemma example_pass:
  "processPendingUploads example_env ''uploads'' example_store =
     (Inr \<lparr>processed = 1, failed = 2\<rparr>,
      \<lparr>tokensFile = Some [(''token-1'',
          \<lparr>td_uploads = [lost_upload\<lparr>uploadedToDrive := True\<rparr>, broken_upload,
                         kept_upload\<lparr>uploadedToDrive := True,
                           uploadedToDriveAt := Some ''2024-01-01T00:00:00.000Z''\<rparr>]\<rparr>)],
       store_files = {''uploads/broken.jpg''},
       store_objects = {''broken.jpg'', ''kept.jpg''}\<rparr>)"
  by (simp add: processPendingUploads_def run_pass_def resolveFolder_def or_default_def
      example_env_def example_store_def pendingUpload_def path_join_def unlinkSync_def
      lost_upload_def broken_upload_def kept_upload_def Let_def insert_Diff_if)

theorem missing_local_file_is_force_marked_witness:
  "pending lost_upload \<and>
   path_join ''uploads'' (filename lost_upload) \<notin> store_files example_store \<and>
   fst (processPendingUploads example_env ''uploads'' example_store) =
     Inr \<lparr>processed = 1, failed = 2\<rparr> \<and>
   td_uploads (snd ([(''token-1'',
          \<lparr>td_uploads = [lost_upload\<lparr>uploadedToDrive := True\<rparr>, broken_upload,
                         kept_upload\<lparr>uploadedToDrive := True,
                           uploadedToDriveAt := Some ''2024-01-01T00:00:00.000Z''\<rparr>]\<rparr>)] ! 0)) ! 0 =
     lost_upload\<lparr>uploadedToDrive := True\<rparr> \<and>
   pendingUpload healthy_env ''uploads'' ''folder-1'' (lost_upload\<lparr>uploadedToDrive := True\<rparr>)
       \<lparr>processed = 0, failed = 0, local_files = {}, bucket_objects = {}\<rparr> =
     (lost_upload\<lparr>uploadedToDrive := True\<rparr>,
      \<lparr>processed = 0, failed = 0, local_files = {}, bucket_objects = {}\<rparr>)"
proof -
  let ?tokens = "[(''token-1'', \<lparr>td_uploads = [lost_upload, broken_upload, kept_upload]\<rparr>)]"
  let ?tokens' = "[(''token-1'',
          \<lparr>td_uploads = [lost_upload\<lparr>uploadedToDrive := True\<rparr>, broken_upload,
                         kept_upload\<lparr>uploadedToDrive := True,
                           uploadedToDriveAt := Some ''2024-01-01T00:00:00.000Z''\<rparr>]\<rparr>)]"
  have cfg: "drive_configured example_env" by (simp add: example_env_def)
  have t0: "tokensFile example_store = Some ?tokens" by (simp add: example_store_def)
  have p: "pending lost_upload" by (simp add: pending_def lost_upload_def)
  have a: "path_join ''uploads'' (filename lost_upload) \<notin> store_files example_store"
    by (simp add: path_join_def lost_upload_def example_store_def)
  have t1: "tokensFile \<lparr>tokensFile = Some ?tokens', store_files = {''uploads/broken.jpg''},
       store_objects = {''broken.jpg'', ''kept.jpg''}\<rparr> = Some ?tokens'"
    by simp
  from missing_local_file_is_force_marked [OF example_pass cfg t0 t1]
  have "\<forall>i j. i < length ?tokens \<and> j < length (td_uploads (snd (?tokens ! i))) \<and>
           pending (td_uploads (snd (?tokens ! i)) ! j) \<and>
           path_join ''uploads'' (filename (td_uploads (snd (?tokens ! i)) ! j))
             \<notin> store_files example_store \<longrightarrow>
           td_uploads (snd (?tokens' ! i)) ! j =
             (td_uploads (snd (?tokens ! i)) ! j)\<lparr>uploadedToDrive := True\<rparr> \<and>
           (\<forall>env2 dir2 fid2 st2.
              pendingUpload env2 dir2 fid2 (td_uploads (snd (?tokens' ! i)) ! j) st2 =
                (td_uploads (snd (?tokens' ! i)) ! j, st2))"
    by (elim conjE)
  then have "(0::nat) < length ?tokens \<and> (0::nat) < length (td_uploads (snd (?tokens ! 0))) \<and>
           pending (td_uploads (snd (?tokens ! 0)) ! 0) \<and>
           path_join ''uploads'' (filename (td_uploads (snd (?tokens ! 0)) ! 0))
             \<notin> store_files example_store \<longrightarrow>
           td_uploads (snd (?tokens' ! 0)) ! 0 =
             (td_uploads (snd (?tokens ! 0)) ! 0)\<lparr>uploadedToDrive := True\<rparr> \<and>
           (\<forall>env2 dir2 fid2 st2.
              pendingUpload env2 dir2 fid2 (td_uploads (snd (?tokens' ! 0)) ! 0) st2 =
                (td_uploads (snd (?tokens' ! 0)) ! 0, st2))"
    by blast
  then have m: "td_uploads (snd (?tokens' ! 0)) ! 0 = lost_upload\<lparr>uploadedToDrive := True\<rparr> \<and>
           (\<forall>env2 dir2 fid2 st2.
              pendingUpload env2 dir2 fid2 (lost_upload\<lparr>uploadedToDrive := True\<rparr>) st2 =
                (lost_upload\<lparr>uploadedToDrive := True\<rparr>, st2))"
    using p a by simp
  show ?thesis using p a m by (simp add: example_pass)
qed

lemma pass_walks_every_upload:
  assumes "tokensFile s = Some tokens" "resolveFolder env = Inr fid" "tokensFile_writable env"
  shows "\<exists>summary tokens' files objects.
           run_pass env body s =
             (Inr summary, \<lparr>tokensFile = Some tokens', store_files = files,
                            store_objects = objects\<rparr>) \<and>
           length tokens' = length tokens \<and>
           (\<forall>i j. i < length tokens \<and> j < length (td_uploads (snd (tokens ! i))) \<longrightarrow>
              (\<exists>st. td_uploads (snd (tokens' ! i)) ! j =
                      fst (body fid (td_uploads (snd (tokens ! i)) ! j) st)))"
proof -
  from run_pass_total [OF assms, of body]
  obtain tokens' st where
    walk: "forEachToken (body fid) tokens
             \<lparr>processed = 0, failed = 0, local_files = store_files s,
              bucket_objects = store_objects s\<rparr> = (tokens', st)"
    and run: "run_pass env body s =
             (Inr \<lparr>processed = processed st, failed = failed st\<rparr>,
              \<lparr>tokensFile = Some tokens', store_files = local_files st,
               store_objects = bucket_objects st\<rparr>)"
    by blast
  from forEachToken_nth [of "\<lambda>_. True" "body fid", OF _ _ walk]
  have "length tokens' = length tokens \<and>
        (\<forall>i j. i < length tokens \<and> j < length (td_uploads (snd (tokens ! i))) \<longrightarrow>
              (\<exists>st. td_uploads (snd (tokens' ! i)) ! j =
                      fst (body fid (td_uploads (snd (tokens ! i)) ! j) st)))"
    by simp
  with run show ?thesis by blast
qed

text \<open>
  Claim C8. In \<^verbatim>\<open>processPendingUploads\<close>, when the Drive adapter fails on a pending
  upload whose local file exists, the loop body returns the upload as it was (still
  pending) and the state with one more failure: the local files and the processed counter
  are unchanged. In \<^verbatim>\<open>processFromBucketToDrive\<close>, when the download from the bucket or
  the Drive adapter fails, the upload is returned as it was, the objects of the bucket
  are unchanged, and the failure counter alone grows by one. A pass whose tokens file is
  readable and writable and whose folder is resolved returns its counters whatever the
  adapters do, and every upload of the tokens file, those after a failed one included,
  has been through the loop body. When no folder identifier is configured and
  \<^verbatim>\<open>createFolder\<close> throws, either pass ends with that error and a store it has not
  touched.
\<close>

theorem transfer_failure_is_isolated:
  "(\<forall>u st fid.
      pending u \<and> path_join dir (filename u) \<in> local_files st \<and>
      \<not> drive_uploadFile_ok env (path_join dir (filename u)) (originalName u) (mimetype u) fid \<longrightarrow>
      pendingUpload env dir fid u st = (u, st\<lparr>failed := failed st + 1\<rparr>)) \<and>
   (\<forall>u st fid.
      in_bucket_pending u \<and>
      (downloadFile env (filename u) (path_join dir (filename u)) st = None \<or>
       \<not> drive_uploadFile_ok env (path_join dir (filename u)) (originalName u) (mimetype u) fid) \<longrightarrow>
      fst (bucketUpload env dir fid u st) = u \<and>
      bucket_objects (snd (bucketUpload env dir fid u st)) = bucket_objects st \<and>
      failed (snd (bucketUpload env dir fid u st)) = failed st + 1 \<and>
      processed (snd (bucketUpload env dir fid u st)) = processed st) \<and>
   (\<forall>s tokens fid.
      drive_configured env \<and> tokensFile s = Some tokens \<and> resolveFolder env = Inr fid \<and>
      tokensFile_writable env \<longrightarrow>
      (\<exists>summary tokens' files objects.
         processPendingUploads env dir s =
           (Inr summary, \<lparr>tokensFile = Some tokens', store_files = files,
                          store_objects = objects\<rparr>) \<and>
         length tokens' = length tokens \<and>
         (\<forall>i j. i < length tokens \<and> j < length (td_uploads (snd (tokens ! i))) \<longrightarrow>
            (\<exists>st. td_uploads (snd (tokens' ! i)) ! j =
                    fst (pendingUpload env dir fid (td_uploads (snd (tokens ! i)) ! j) st))))) \<and>
   (\<forall>s tokens fid.
      drive_configured env \<and> bucket_configured env \<and> tokensFile s = Some tokens \<and>
      resolveFolder env = Inr fid \<and> tokensFile_writable env \<longrightarrow>
      (\<exists>summary tokens' files objects.
         processFromBucketToDrive env dir s =
           (Inr summary, \<lparr>tokensFile = Some tokens', store_files = files,
                          store_objects = objects\<rparr>) \<and>
         length tokens' = length tokens \<and>
         (\<forall>i j. i < length tokens \<and> j < length (td_uploads (snd (tokens ! i))) \<longrightarrow>
            (\<exists>st. td_uploads (snd (tokens' ! i)) ! j =
                    fst (bucketUpload env dir fid (td_uploads (snd (tokens ! i)) ! j) st))))) \<and>
   (\<forall>s tokens.
      drive_configured env \<and> tokensFile s = Some tokens \<and>
      (DRIVE_FOLDER_ID env = None \<or> DRIVE_FOLDER_ID env = Some []) \<and>
      createFolder env (or_default (DRIVE_FOLDER_NAME env) ''Guest Uploads'') = None \<longrightarrow>
      processPendingUploads env dir s = (Inl CreateFolderFailed, s) \<and>
      (bucket_configured env \<longrightarrow>
         processFromBucketToDrive env dir s = (Inl CreateFolderFailed, s)))"
proof (intro conjI allI impI)
  fix u :: upload and st :: pass_state and fid :: string
  assume "pending u \<and> path_join dir (filename u) \<in> local_files st \<and>
      \<not> drive_uploadFile_ok env (path_join dir (filename u)) (originalName u) (mimetype u) fid"
  then show "pendingUpload env dir fid u st = (u, st\<lparr>failed := failed st + 1\<rparr>)"
    by (simp add: pendingUpload_transfer_fails pending_def)
next
  fix u :: upload and st :: pass_state and fid :: string
  assume h: "in_bucket_pending u \<and>
      (downloadFile env (filename u) (path_join dir (filename u)) st = None \<or>
       \<not> drive_uploadFile_ok env (path_join dir (filename u)) (originalName u) (mimetype u) fid)"
  note r = bucketUpload_transfer_fails [of u env dir st fid]
  show "fst (bucketUpload env dir fid u st) = u" using h r by blast
  show "bucket_objects (snd (bucketUpload env dir fid u st)) = bucket_objects st"
    using h r by blast
  show "failed (snd (bucketUpload env dir fid u st)) = failed st + 1" using h r by blast
  show "processed (snd (bucketUpload env dir fid u st)) = processed st" using h r by blast
next
  fix s :: store and tokens :: "(string \<times> tokenData) list" and fid :: string
  assume "drive_configured env \<and> tokensFile s = Some tokens \<and> resolveFolder env = Inr fid \<and>
      tokensFile_writable env"
  then show "\<exists>summary tokens' files objects.
         processPendingUploads env dir s =
           (Inr summary, \<lparr>tokensFile = Some tokens', store_files = files,
                          store_objects = objects\<rparr>) \<and>
         length tokens' = length tokens \<and>
         (\<forall>i j. i < length tokens \<and> j < length (td_uploads (snd (tokens ! i))) \<longrightarrow>
            (\<exists>st. td_uploads (snd (tokens' ! i)) ! j =
                    fst (pendingUpload env dir fid (td_uploads (snd (tokens ! i)) ! j) st)))"
    using pass_walks_every_upload [of s tokens env fid "pendingUpload env dir"]
    by (simp add: processPendingUploads_def)
next
  fix s :: store and tokens :: "(string \<times> tokenData) list" and fid :: string
  assume "drive_configured env \<and> bucket_configured env \<and> tokensFile s = Some tokens \<and>
      resolveFolder env = Inr fid \<and> tokensFile_writable env"
  then show "\<exists>summary tokens' files objects.
         processFromBucketToDrive env dir s =
           (Inr summary, \<lparr>tokensFile = Some tokens', store_files = files,
                          store_objects = objects\<rparr>) \<and>
         length tokens' = length tokens \<and>
         (\<forall>i j. i < length tokens \<and> j < length (td_uploads (snd (tokens ! i))) \<longrightarrow>
            (\<exists>st. td_uploads (snd (tokens' ! i)) ! j =
                    fst (bucketUpload env dir fid (td_uploads (snd (tokens ! i)) ! j) st)))"
    using pass_walks_every_upload [of s tokens env fid "bucketUpload env dir"]
    by (simp add: processFromBucketToDrive_def)
next
  fix s :: store and tokens :: "(string \<times> tokenData) list"
  assume h: "drive_configured env \<and> tokensFile s = Some tokens \<and>
      (DRIVE_FOLDER_ID env = None \<or> DRIVE_FOLDER_ID env = Some []) \<and>
      createFolder env (or_default (DRIVE_FOLDER_NAME env) ''Guest Uploads'') = None"
  then have f: "resolveFolder env = Inl CreateFolderFailed"
    by (simp add: resolveFolder_fails)
  show "processPendingUploads env dir s = (Inl CreateFolderFailed, s)"
    using h f by (simp add: processPendingUploads_def run_pass_aborts)
  show "processFromBucketToDrive env dir s = (Inl CreateFolderFailed, s)"
    if "bucket_configured env"
    using h f that by (simp add: processFromBucketToDrive_def run_pass_aborts)
qed


lemma example_folder: "resolveFolder example_env = Inr ''folder-1''"
  by (simp add: resolveFolder_def example_env_def or_default_def)

theorem transfer_failure_is_isolated_witness:
  "pendingUpload example_env ''uploads'' ''folder-1'' broken_upload
     \<lparr>processed = 0, failed = 1,
      local_files = {''uploads/broken.jpg'', ''uploads/kept.jpg''}, bucket_objects = {}\<rparr> =
     (broken_upload,
      \<lparr>processed = 0, failed = 2,
       local_files = {''uploads/broken.jpg'', ''uploads/kept.jpg''}, bucket_objects = {}\<rparr>) \<and>
   (\<exists>summary s'. processPendingUploads example_env ''uploads'' example_store = (Inr summary, s')) \<and>
   processPendingUploads folderless_env ''uploads'' example_store =
     (Inl CreateFolderFailed, example_store) \<and>
   processFromBucketToDrive folderless_env ''temp'' example_store =
     (Inl CreateFolderFailed, example_store)"
proof -
  let ?st = "\<lparr>processed = 0, failed = 1,
      local_files = {''uploads/broken.jpg'', ''uploads/kept.jpg''}, bucket_objects = {}\<rparr>"
  have h1: "pending broken_upload \<and>
      path_join ''uploads'' (filename broken_upload) \<in> local_files ?st \<and>
      \<not> drive_uploadFile_ok example_env (path_join ''uploads'' (filename broken_upload))
           (originalName broken_upload) (mimetype broken_upload) ''folder-1''"
    by (simp add: pending_def broken_upload_def path_join_def example_env_def)
  from transfer_failure_is_isolated [of "''uploads''" example_env]
  have "\<forall>u st fid.
      pending u \<and> path_join ''uploads'' (filename u) \<in> local_files st \<and>
      \<not> drive_uploadFile_ok example_env (path_join ''uploads'' (filename u)) (originalName u)
           (mimetype u) fid \<longrightarrow>
      pendingUpload example_env ''uploads'' fid u st = (u, st\<lparr>failed := failed st + 1\<rparr>)"
    by (elim conjE)
  with h1 have a: "pendingUpload example_env ''uploads'' ''folder-1'' broken_upload ?st =
      (broken_upload, ?st\<lparr>failed := failed ?st + 1\<rparr>)"
    by blast
  have h3: "drive_configured example_env \<and>
      tokensFile example_store =
        Some [(''token-1'', \<lparr>td_uploads = [lost_upload, broken_upload, kept_upload]\<rparr>)] \<and>
      resolveFolder example_env = Inr ''folder-1'' \<and> tokensFile_writable example_env"
    by (simp add: example_folder) (simp add: example_env_def example_store_def)
  from transfer_failure_is_isolated [of "''uploads''" example_env]
  have "\<forall>s tokens fid.
      drive_configured example_env \<and> tokensFile s = Some tokens \<and>
      resolveFolder example_env = Inr fid \<and> tokensFile_writable example_env \<longrightarrow>
      (\<exists>summary tokens' files objects.
         processPendingUploads example_env ''uploads'' s =
           (Inr summary, \<lparr>tokensFile = Some tokens', store_files = files,
                          store_objects = objects\<rparr>) \<and>
         length tokens' = length tokens \<and>
         (\<forall>i j. i < length tokens \<and> j < length (td_uploads (snd (tokens ! i))) \<longrightarrow>
            (\<exists>st. td_uploads (snd (tokens' ! i)) ! j =
                    fst (pendingUpload example_env ''uploads'' fid
                           (td_uploads (snd (tokens ! i)) ! j) st))))"
    by (elim conjE)
  with h3 have b: "\<exists>summary s'.
      processPendingUploads example_env ''uploads'' example_store = (Inr summary, s')"
    by blast
  have h5: "drive_configured folderless_env \<and> bucket_configured folderless_env \<and>
      tokensFile example_store =
        Some [(''token-1'', \<lparr>td_uploads = [lost_upload, broken_upload, kept_upload]\<rparr>)] \<and>
      (DRIVE_FOLDER_ID folderless_env = None \<or> DRIVE_FOLDER_ID folderless_env = Some []) \<and>
      createFolder folderless_env (or_default (DRIVE_FOLDER_NAME folderless_env) ''Guest Uploads'')
        = None"
    by (simp add: folderless_env_def example_env_def example_store_def)
  have c: "processPendingUploads folderless_env ''uploads'' example_store =
             (Inl CreateFolderFailed, example_store)"
    using transfer_failure_is_isolated [of "''uploads''" folderless_env] h5 by blast
  have d: "processFromBucketToDrive folderless_env ''temp'' example_store =
             (Inl CreateFolderFailed, example_store)"
    using transfer_failure_is_isolated [of "''temp''" folderless_env] h5 by blast
  show ?thesis using a b c d by simp
qed

lemma walk_leaves_no_candidate:
  assumes walk: "forEachToken body t0 st0 = (t1, st)"
    and idle: "\<And>u x. \<not> cand u \<Longrightarrow> fst (body u x) = u"
    and moved: "\<forall>i j. i < length t0 \<and> j < length (td_uploads (snd (t0 ! i))) \<and>
                  cand (td_uploads (snd (t0 ! i)) ! j) \<longrightarrow>
                  \<not> cand (td_uploads (snd (t1 ! i)) ! j)"
  shows "\<forall>u \<in> set (all_uploads t1). \<not> cand u"
proof
  fix u assume "u \<in> set (all_uploads t1)"
  then obtain i j where ij: "i < length t1" "j < length (td_uploads (snd (t1 ! i)))"
    "u = td_uploads (snd (t1 ! i)) ! j"
    using all_uploads_position by blast
  from forEachToken_nth [of "\<lambda>_. True" body, OF _ _ walk]
  have shape: "length t1 = length t0"
    "\<forall>i < length t0.
       length (td_uploads (snd (t1 ! i))) = length (td_uploads (snd (t0 ! i))) \<and>
       (\<forall>j < length (td_uploads (snd (t0 ! i))).
          \<exists>x. td_uploads (snd (t1 ! i)) ! j = fst (body (td_uploads (snd (t0 ! i)) ! j) x))"
    by simp_all
  have i0: "i < length t0" using ij(1) shape(1) by simp
  have j0: "j < length (td_uploads (snd (t0 ! i)))" using ij(2) shape(2) i0 by simp
  show "\<not> cand u"
  proof (cases "cand (td_uploads (snd (t0 ! i)) ! j)")
    case True
    then show ?thesis using moved i0 j0 ij(3) by blast
  next
    case False
    from shape(2) i0 j0 obtain x where
      "td_uploads (snd (t1 ! i)) ! j = fst (body (td_uploads (snd (t0 ! i)) ! j) x)"
      by blast
    then have "u = td_uploads (snd (t0 ! i)) ! j" using idle [OF False] ij(3) by simp
    then show ?thesis using False by simp
  qed
qed

lemma pendingUpload_idle: "\<not> pending u \<Longrightarrow> pendingUpload env dir fid u st = (u, st)"
  by (simp add: pendingUpload_done pending_def)

lemma pass_output_has_no_candidate:
  assumes run: "run_pass env body s0 = (Inr sum1, s1)"
    and t0: "tokensFile s0 = Some t0" and t1: "tokensFile s1 = Some t1"
    and idle: "\<And>fid u x. \<not> cand u \<Longrightarrow> fst (body fid u x) = u"
    and moved: "\<forall>i j. i < length t0 \<and> j < length (td_uploads (snd (t0 ! i))) \<and>
                  cand (td_uploads (snd (t0 ! i)) ! j) \<longrightarrow>
                  \<not> cand (td_uploads (snd (t1 ! i)) ! j)"
  shows "\<forall>u \<in> set (all_uploads t1). \<not> cand u"
proof -
  from run t0 t1 obtain fid st where
    "forEachToken (body fid) t0
       \<lparr>processed = 0, failed = 0, local_files = store_files s0,
        bucket_objects = store_objects s0\<rparr> = (t1, st)"
    by (auto elim!: run_pass_Inr)
  then show ?thesis using idle moved by (rule walk_leaves_no_candidate)
qed

lemma unchanged_store_has_no_candidate:
  assumes "\<forall>i j. i < length t0 \<and> j < length (td_uploads (snd (t0 ! i))) \<and>
                  cand (td_uploads (snd (t0 ! i)) ! j) \<longrightarrow>
                  \<not> cand (td_uploads (snd (t0 ! i)) ! j)"
  shows "\<forall>u \<in> set (all_uploads t0). \<not> cand u"
  using assms all_uploads_position by blast

text \<open>
  Claim C9. Let a first pass return its counters and write the tokens file \<open>t1\<close> from
  \<open>t0\<close>, such that every upload that was a candidate in \<open>t0\<close> (pending; for the bucket
  pass, in the bucket and pending) is no candidate in \<open>t1\<close>. Then a second pass on the
  store the first one left, in any environment that resolves the folder and can write
  the tokens file, returns \<^verbatim>\<open>{ processed: 0, failed: 0 }\<close> and leaves the store as it is.
\<close>

theorem second_pass_processes_nothing:
  assumes t0: "tokensFile s0 = Some t0" and t1: "tokensFile s1 = Some t1"
    and folder2: "resolveFolder env2 = Inr fid2" and write2: "tokensFile_writable env2"
  shows "(processPendingUploads env1 dir1 s0 = (Inr sum1, s1) \<and>
          (\<forall>i j. i < length t0 \<and> j < length (td_uploads (snd (t0 ! i))) \<and>
                 pending (td_uploads (snd (t0 ! i)) ! j) \<longrightarrow>
                 \<not> pending (td_uploads (snd (t1 ! i)) ! j)) \<longrightarrow>
          processPendingUploads env2 dir2 s1 = (Inr \<lparr>processed = 0, failed = 0\<rparr>, s1)) \<and>
         (processFromBucketToDrive env1 dir1 s0 = (Inr sum1, s1) \<and>
          (\<forall>i j. i < length t0 \<and> j < length (td_uploads (snd (t0 ! i))) \<and>
                 in_bucket_pending (td_uploads (snd (t0 ! i)) ! j) \<longrightarrow>
                 \<not> in_bucket_pending (td_uploads (snd (t1 ! i)) ! j)) \<longrightarrow>
          processFromBucketToDrive env2 dir2 s1 = (Inr \<lparr>processed = 0, failed = 0\<rparr>, s1))"
proof (intro conjI impI)
  assume h: "processPendingUploads env1 dir1 s0 = (Inr sum1, s1) \<and>
          (\<forall>i j. i < length t0 \<and> j < length (td_uploads (snd (t0 ! i))) \<and>
                 pending (td_uploads (snd (t0 ! i)) ! j) \<longrightarrow>
                 \<not> pending (td_uploads (snd (t1 ! i)) ! j))"
  have none: "\<forall>u \<in> set (all_uploads t1). \<not> pending u"
  proof (cases "drive_configured env1")
    case True
    then have run: "run_pass env1 (pendingUpload env1 dir1) s0 = (Inr sum1, s1)"
      using h by (simp add: processPendingUploads_def)
    have moved: "\<forall>i j. i < length t0 \<and> j < length (td_uploads (snd (t0 ! i))) \<and>
                 pending (td_uploads (snd (t0 ! i)) ! j) \<longrightarrow>
                 \<not> pending (td_uploads (snd (t1 ! i)) ! j)"
      using h by (elim conjE)
    show ?thesis
      by (rule pass_output_has_no_candidate [where cand = pending, OF run t0 t1 _ moved])
         (simp add: pendingUpload_idle)
  next
    case False
    then have "s1 = s0" using h by (simp add: processPendingUploads_def)
    then have "t1 = t0" using t0 t1 by simp
    then show ?thesis using h unchanged_store_has_no_candidate [of t0 pending] by blast
  qed
  have "run_pass env2 (pendingUpload env2 dir2) s1 = (Inr \<lparr>processed = 0, failed = 0\<rparr>, s1)"
    using none by (intro run_pass_idle [OF t1 folder2 write2]) (auto simp: pendingUpload_idle)
  then show "processPendingUploads env2 dir2 s1 = (Inr \<lparr>processed = 0, failed = 0\<rparr>, s1)"
    by (simp add: processPendingUploads_def)
next
  assume h: "processFromBucketToDrive env1 dir1 s0 = (Inr sum1, s1) \<and>
          (\<forall>i j. i < length t0 \<and> j < length (td_uploads (snd (t0 ! i))) \<and>
                 in_bucket_pending (td_uploads (snd (t0 ! i)) ! j) \<longrightarrow>
                 \<not> in_bucket_pending (td_uploads (snd (t1 ! i)) ! j))"
  have none: "\<forall>u \<in> set (all_uploads t1). \<not> in_bucket_pending u"
  proof (cases "drive_configured env1 \<and> bucket_configured env1")
    case True
    then have run: "run_pass env1 (bucketUpload env1 dir1) s0 = (Inr sum1, s1)"
      using h by (simp add: processFromBucketToDrive_def)
    have moved: "\<forall>i j. i < length t0 \<and> j < length (td_uploads (snd (t0 ! i))) \<and>
                 in_bucket_pending (td_uploads (snd (t0 ! i)) ! j) \<longrightarrow>
                 \<not> in_bucket_pending (td_uploads (snd (t1 ! i)) ! j)"
      using h by (elim conjE)
    show ?thesis
      by (rule pass_output_has_no_candidate [where cand = in_bucket_pending,
            OF run t0 t1 _ moved])
         (simp add: bucketUpload_idle)
  next
    case False
    then have "s1 = s0" using h by (auto simp: processFromBucketToDrive_def split: if_splits)
    then have "t1 = t0" using t0 t1 by simp
    then show ?thesis using h unchanged_store_has_no_candidate [of t0 in_bucket_pending] by blast
  qed
  have "run_pass env2 (bucketUpload env2 dir2) s1 = (Inr \<lparr>processed = 0, failed = 0\<rparr>, s1)"
    using none by (intro run_pass_idle [OF t1 folder2 write2]) (auto simp: bucketUpload_idle)
  then show "processFromBucketToDrive env2 dir2 s1 = (Inr \<lparr>processed = 0, failed = 0\<rparr>, s1)"
    by (simp add: processFromBucketToDrive_def)
qed


lemma healthy_pass:
  "processPendingUploads healthy_env ''uploads'' example_store =
     (Inr \<lparr>processed = 2, failed = 1\<rparr>,
      \<lparr>tokensFile = Some [(''token-1'',
          \<lparr>td_uploads = [lost_upload\<lparr>uploadedToDrive := True\<rparr>,
                         broken_upload\<lparr>uploadedToDrive := True,
                           uploadedToDriveAt := Some ''2024-01-01T00:00:00.000Z''\<rparr>,
                         kept_upload\<lparr>uploadedToDrive := True,
                           uploadedToDriveAt := Some ''2024-01-01T00:00:00.000Z''\<rparr>]\<rparr>)],
       store_files = {},
       store_objects = {''broken.jpg'', ''kept.jpg''}\<rparr>)"
  by (simp add: processPendingUploads_def run_pass_def resolveFolder_def or_default_def
      healthy_env_def example_env_def example_store_def pendingUpload_def path_join_def
      unlinkSync_def lost_upload_def broken_upload_def kept_upload_def Let_def insert_Diff_if)

lemma healthy_bucket_pass:
  "processFromBucketToDrive healthy_env ''temp'' example_store =
     (Inr \<lparr>processed = 2, failed = 0\<rparr>,
      \<lparr>tokensFile = Some [(''token-1'',
          \<lparr>td_uploads = [lost_upload,
                         broken_upload\<lparr>uploadedToDrive := True,
                           uploadedToDriveAt := Some ''2024-01-01T00:00:00.000Z''\<rparr>,
                         kept_upload\<lparr>uploadedToDrive := True,
                           uploadedToDriveAt := Some ''2024-01-01T00:00:00.000Z''\<rparr>]\<rparr>)],
       store_files = {''uploads/broken.jpg'', ''uploads/kept.jpg''},
       store_objects = {}\<rparr>)"
  by (simp add: processFromBucketToDrive_def run_pass_def resolveFolder_def or_default_def
      healthy_env_def example_env_def example_store_def bucketUpload_def path_join_def
      unlinkSync_def downloadFile_def deleteFile_def lost_upload_def broken_upload_def
      kept_upload_def Let_def insert_Diff_if)

theorem second_pass_processes_nothing_witness:
  "fst (processPendingUploads healthy_env ''uploads'' example_store) =
     Inr \<lparr>processed = 2, failed = 1\<rparr> \<and>
   processPendingUploads example_env ''uploads''
       (snd (processPendingUploads healthy_env ''uploads'' example_store)) =
     (Inr \<lparr>processed = 0, failed = 0\<rparr>,
      snd (processPendingUploads healthy_env ''uploads'' example_store)) \<and>
   fst (processFromBucketToDrive healthy_env ''temp'' example_store) =
     Inr \<lparr>processed = 2, failed = 0\<rparr> \<and>
   processFromBucketToDrive example_env ''temp''
       (snd (processFromBucketToDrive healthy_env ''temp'' example_store)) =
     (Inr \<lparr>processed = 0, failed = 0\<rparr>,
      snd (processFromBucketToDrive healthy_env ''temp'' example_store))"
proof -
  let ?before = "[(''token-1'', \<lparr>td_uploads = [lost_upload, broken_upload, kept_upload]\<rparr>)]"
  let ?after = "[(''token-1'',
          \<lparr>td_uploads = [lost_upload\<lparr>uploadedToDrive := True\<rparr>,
                         broken_upload\<lparr>uploadedToDrive := True,
                           uploadedToDriveAt := Some ''2024-01-01T00:00:00.000Z''\<rparr>,
                         kept_upload\<lparr>uploadedToDrive := True,
                           uploadedToDriveAt := Some ''2024-01-01T00:00:00.000Z''\<rparr>]\<rparr>)]"
  let ?after_bucket = "[(''token-1'',
          \<lparr>td_uploads = [lost_upload,
                         broken_upload\<lparr>uploadedToDrive := True,
                           uploadedToDriveAt := Some ''2024-01-01T00:00:00.000Z''\<rparr>,
                         kept_upload\<lparr>uploadedToDrive := True,
                           uploadedToDriveAt := Some ''2024-01-01T00:00:00.000Z''\<rparr>]\<rparr>)]"
  let ?s1 = "\<lparr>tokensFile = Some ?after, store_files = {},
             store_objects = {''broken.jpg'', ''kept.jpg''}\<rparr>"
  let ?s2 = "\<lparr>tokensFile = Some ?after_bucket,
             store_files = {''uploads/broken.jpg'', ''uploads/kept.jpg''},
             store_objects = {}\<rparr>"
  have a0: "tokensFile example_store = Some ?before" by (simp add: example_store_def)
  have a1: "tokensFile ?s1 = Some ?after" by simp
  have a2: "tokensFile ?s2 = Some ?after_bucket" by simp
  have a3: "tokensFile_writable example_env" by (simp add: example_env_def)
  have settled: "\<forall>u \<in> set (all_uploads ?after). \<not> pending u"
    by (simp add: all_uploads_def pending_def)
  have settled_bucket: "\<forall>u \<in> set (all_uploads ?after_bucket). \<not> in_bucket_pending u"
    by (simp add: all_uploads_def in_bucket_pending_def lost_upload_def)
  have moved: "\<forall>i j. i < length ?before \<and> j < length (td_uploads (snd (?before ! i))) \<and>
      pending (td_uploads (snd (?before ! i)) ! j) \<longrightarrow>
      \<not> pending (td_uploads (snd (?after ! i)) ! j)"
  proof (intro allI impI)
    fix i j :: nat
    assume h: "i < length ?before \<and> j < length (td_uploads (snd (?before ! i))) \<and>
      pending (td_uploads (snd (?before ! i)) ! j)"
    then have i: "i = 0" by simp
    with h have "j < 3" by simp
    with i have "i < length ?after" "j < length (td_uploads (snd (?after ! i)))" by simp_all
    then have "td_uploads (snd (?after ! i)) ! j \<in> set (all_uploads ?after)"
      by (rule all_uploads_nth)
    then show "\<not> pending (td_uploads (snd (?after ! i)) ! j)" using settled by blast
  qed
  have moved_bucket:
    "\<forall>i j. i < length ?before \<and> j < length (td_uploads (snd (?before ! i))) \<and>
      in_bucket_pending (td_uploads (snd (?before ! i)) ! j) \<longrightarrow>
      \<not> in_bucket_pending (td_uploads (snd (?after_bucket ! i)) ! j)"
  proof (intro allI impI)
    fix i j :: nat
    assume h: "i < length ?before \<and> j < length (td_uploads (snd (?before ! i))) \<and>
      in_bucket_pending (td_uploads (snd (?before ! i)) ! j)"
    then have i: "i = 0" by simp
    with h have "j < 3" by simp
    with i have "i < length ?after_bucket" "j < length (td_uploads (snd (?after_bucket ! i)))"
      by simp_all
    then have "td_uploads (snd (?after_bucket ! i)) ! j \<in> set (all_uploads ?after_bucket)"
      by (rule all_uploads_nth)
    then show "\<not> in_bucket_pending (td_uploads (snd (?after_bucket ! i)) ! j)"
      using settled_bucket by blast
  qed
  from second_pass_processes_nothing [OF a0 a1 example_folder a3,
      of healthy_env "''uploads''" "\<lparr>processed = 2, failed = 1\<rparr>" "''uploads''"]
  have "processPendingUploads healthy_env ''uploads'' example_store =
          (Inr \<lparr>processed = 2, failed = 1\<rparr>, ?s1) \<and>
        (\<forall>i j. i < length ?before \<and> j < length (td_uploads (snd (?before ! i))) \<and>
               pending (td_uploads (snd (?before ! i)) ! j) \<longrightarrow>
               \<not> pending (td_uploads (snd (?after ! i)) ! j)) \<longrightarrow>
        processPendingUploads example_env ''uploads'' ?s1 =
          (Inr \<lparr>processed = 0, failed = 0\<rparr>, ?s1)"
    by (elim conjE)
  with healthy_pass moved
  have drive: "processPendingUploads example_env ''uploads'' ?s1 =
          (Inr \<lparr>processed = 0, failed = 0\<rparr>, ?s1)"
    by blast
  from second_pass_processes_nothing [OF a0 a2 example_folder a3,
      of healthy_env "''temp''" "\<lparr>processed = 2, failed = 0\<rparr>" "''temp''"]
  have "processFromBucketToDrive healthy_env ''temp'' example_store =
          (Inr \<lparr>processed = 2, failed = 0\<rparr>, ?s2) \<and>
        (\<forall>i j. i < length ?before \<and> j < length (td_uploads (snd (?before ! i))) \<and>
               in_bucket_pending (td_uploads (snd (?before ! i)) ! j) \<longrightarrow>
               \<not> in_bucket_pending (td_uploads (snd (?after_bucket ! i)) ! j)) \<longrightarrow>
        processFromBucketToDrive example_env ''temp'' ?s2 =
          (Inr \<lparr>processed = 0, failed = 0\<rparr>, ?s2)"
    by (elim conjE)
  with healthy_bucket_pass moved_bucket
  have bucket: "processFromBucketToDrive example_env ''temp'' ?s2 =
          (Inr \<lparr>processed = 0, failed = 0\<rparr>, ?s2)"
    by blast
  show ?thesis using drive bucket by (simp add: healthy_pass healthy_bucket_pass)
qed

lemma processFromBucketToDrive_counts:
  assumes run: "processFromBucketToDrive env dir s = (Inr summary, s')"
    and cfg: "drive_configured env" "bucket_configured env"
    and toks: "tokensFile s = Some tokens"
  shows "processed summary + failed summary =
           length (filter in_bucket_pending (all_uploads tokens))"
proof -
  from run cfg have "run_pass env (bucketUpload env dir) s = (Inr summary, s')"
    by (simp add: processFromBucketToDrive_def)
  then obtain fid tokens' st where
    walk: "forEachToken (bucketUpload env dir fid) tokens
             \<lparr>processed = 0, failed = 0, local_files = store_files s,
              bucket_objects = store_objects s\<rparr> = (tokens', st)"
    and sum: "summary = \<lparr>processed = processed st, failed = failed st\<rparr>"
    using toks by (auto elim!: run_pass_Inr)
  from forEachToken_count [of "\<lambda>x. processed x + failed x" "bucketUpload env dir fid"
      "\<lambda>u. if in_bucket_pending u then 1 else 0", OF _ walk]
  have "processed st + failed st =
          sum_list (map (\<lambda>u. if in_bucket_pending u then 1 else 0) (all_uploads tokens))"
    by (simp add: bucketUpload_counts)
  then show ?thesis by (simp add: sum count_candidates)
qed

lemma processPendingUploads_counts_when_unlink_succeeds:
  assumes run: "processPendingUploads env dir s = (Inr summary, s')"
    and cfg: "drive_configured env"
    and toks: "tokensFile s = Some tokens"
    and unlink: "\<And>p. unlinkSync_ok env p"
  shows "processed summary + failed summary = length (filter pending (all_uploads tokens))"
proof -
  from run cfg have "run_pass env (pendingUpload env dir) s = (Inr summary, s')"
    by (simp add: processPendingUploads_def)
  then obtain fid tokens' st where
    walk: "forEachToken (pendingUpload env dir fid) tokens
             \<lparr>processed = 0, failed = 0, local_files = store_files s,
              bucket_objects = store_objects s\<rparr> = (tokens', st)"
    and sum: "summary = \<lparr>processed = processed st, failed = failed st\<rparr>"
    using toks by (auto elim!: run_pass_Inr)
  from forEachToken_count [of "\<lambda>x. processed x + failed x" "pendingUpload env dir fid"
      "\<lambda>u. if pending u then 1 else 0", OF _ walk]
  have "processed st + failed st =
          sum_list (map (\<lambda>u. if pending u then 1 else 0) (all_uploads tokens))"
    by (simp add: pendingUpload_counts_unlink_ok [OF unlink])
  then show ?thesis by (simp add: sum count_candidates)
qed

text \<open>
  Claim C10, evaluated on the code. The tokens file holds one pending upload whose local
  file exists; the Drive adapter accepts it and \<^verbatim>\<open>fs.unlinkSync\<close> throws. In
  \<^verbatim>\<open>processPendingUploads\<close> the upload has been marked and \<^verbatim>\<open>processed\<close> incremented
  before the unlink, and the \<^verbatim>\<open>catch\<close> increments \<^verbatim>\<open>failed\<close>: one candidate,
  counters 1 and 1. The two lemmas before show that the bucket pass counts every
  candidate once, and that this pass does so when no unlink fails.
\<close>

theorem unlink_failure_is_counted_twice:
  "tokensFile single_store = Some [(''token-1'', \<lparr>td_uploads = [kept_upload]\<rparr>)] \<and>
   length (filter pending (all_uploads [(''token-1'', \<lparr>td_uploads = [kept_upload]\<rparr>)])) = 1 \<and>
   processPendingUploads sticky_env ''uploads'' single_store =
     (Inr \<lparr>processed = 1, failed = 1\<rparr>,
      \<lparr>tokensFile = Some [(''token-1'',
          \<lparr>td_uploads = [kept_upload\<lparr>uploadedToDrive := True,
                           uploadedToDriveAt := Some ''2024-01-01T00:00:00.000Z''\<rparr>]\<rparr>)],
       store_files = {''uploads/kept.jpg''}, store_objects = {''kept.jpg''}\<rparr>)"
  by (simp add: processPendingUploads_def run_pass_def resolveFolder_def or_default_def
      sticky_env_def example_env_def single_store_def pendingUpload_def path_join_def
      unlinkSync_def kept_upload_def Let_def all_uploads_def pending_def)

end
